theory Spec2Isabelle
  imports Main "HOL-Library.Word"
begin

section \<open>dbfread: the table-decoding engine of \<^verbatim>\<open>dbfread/dbf.py\<close>\<close>

text \<open>
  A shallow embedding of \<^verbatim>\<open>src/dbfread/dbf.py\<close>. Byte strings are lists of 8-bit
  words, decoded text is a list of code points, Python's unbounded integers are
  \<^typ>\<open>int\<close> (and \<^typ>\<open>nat\<close> where \<^verbatim>\<open>struct\<close> unpacks an unsigned field). Every
  \<^verbatim>\<open>raise\<close> of the source is an \<open>Inl\<close> branch of the model, or the outcome \<open>Raised\<close>
  of a generator.
\<close>

subsection \<open>Bytes, text and exceptions\<close>

type_synonym byte = "8 word"
type_synonym bytes = "byte list"
type_synonym unicode = "nat list"

definition ustr :: "string \<Rightarrow> unicode" where
  "ustr s = map of_char s"

text \<open>
  The messages of the exceptions that \<^verbatim>\<open>dbf.py\<close> raises itself, one constructor per
  \<^verbatim>\<open>raise\<close> statement, with the value that is formatted into the message; \<open>Errno_2\<close>
  is the message of \<^verbatim>\<open>open\<close> for a file that does not exist.
\<close>

datatype message =
    No_such_file string
  | Missing_memo_file string
  | Invalid_record_separator bytes
  | Must_have_at_least_one_field string
  | Type_0_must_have_length_1 nat
  | Type_I_must_have_length_4 nat
  | Type_L_must_have_length_1 nat
  | Unknown_field_type unicode
  | Errno_2 string
  | Other_message string

datatype error =
    IOError message
  | ValueError message
  | StructError
  | AttributeError
  | TypeError
  | LookupError

subsection \<open>Century expansion\<close>

definition expand_year :: "int \<Rightarrow> int" where
  "expand_year year = (if year < 80 then 2000 + year else 1900 + year)"

subsection \<open>Files opened for reading\<close>

text \<open>
  A file opened with mode \<^verbatim>\<open>'rb'\<close>: its contents and the read position. \<^verbatim>\<open>read(n)\<close>
  returns at most \<open>n\<close> bytes, fewer at the end of the file and none at or past it, and
  advances by what it returned; \<^verbatim>\<open>seek(n, 0)\<close> sets the position, \<^verbatim>\<open>seek(n, 1)\<close> moves
  it forward, possibly past the end.
\<close>

record pyfile =
  data :: bytes
  pos :: nat

definition file_read :: "pyfile \<Rightarrow> nat \<Rightarrow> bytes \<times> pyfile" where
  "file_read f n =
     (let d = take n (drop (pos f) (data f)) in (d, f\<lparr>pos := pos f + length d\<rparr>))"

definition seek_set :: "pyfile \<Rightarrow> nat \<Rightarrow> pyfile" where
  "seek_set f n = f\<lparr>pos := n\<rparr>"

definition seek_cur :: "pyfile \<Rightarrow> nat \<Rightarrow> pyfile" where
  "seek_cur f n = f\<lparr>pos := pos f + n\<rparr>"

text \<open>What is left to read.\<close>

definition remaining :: "pyfile \<Rightarrow> bytes" where
  "remaining f = drop (pos f) (data f)"

subsection \<open>The two fixed layouts\<close>

text \<open>
  \<^verbatim>\<open>DBFHeader\<close> has the format \<^verbatim>\<open><BBBBLHHHBBLLLBBH\<close> and \<^verbatim>\<open>DBFField\<close> the format
  \<^verbatim>\<open><11scLBBHBBBB7sB\<close>: little-endian, no padding, 32 bytes each. The field names are
  the source's; \<open>type\<close> and \<open>length\<close> are written \<open>ftype\<close> and \<open>flength\<close>, and the
  reserved fields of the header carry the prefix \<open>h\<close>.
\<close>

record dbf_header =
  dbversion :: nat
  year :: nat
  month :: nat
  day :: nat
  numrecords :: nat
  headerlen :: nat
  recordlen :: nat
  h_reserved1 :: nat
  incomplete_transaction :: nat
  encryption_flag :: nat
  free_record_thread :: nat
  h_reserved2 :: nat
  h_reserved3 :: nat
  mdx_flag :: nat
  language_driver :: nat
  h_reserved4 :: nat

text \<open>
  The name and the type of a descriptor are byte strings as unpacked and text once
  \<^verbatim>\<open>_read_headers\<close> has replaced them, so the record is polymorphic in both.
\<close>

record ('n, 't) dbf_field =
  name :: 'n
  ftype :: 't
  address :: nat
  flength :: nat
  decimal_count :: nat
  reserved1 :: nat
  workarea_id :: nat
  reserved2 :: nat
  reserved3 :: nat
  set_fields_flag :: nat
  reserved4 :: bytes
  index_field_flag :: nat

type_synonym field = "(unicode, unicode) dbf_field"

fun le_nat :: "bytes \<Rightarrow> nat" where
  "le_nat [] = 0"
| "le_nat (b # bs) = unat b + 256 * le_nat bs"

definition slice :: "nat \<Rightarrow> nat \<Rightarrow> bytes \<Rightarrow> bytes" where
  "slice off n bs = take n (drop off bs)"

definition DBFHeader_unpack :: "bytes \<Rightarrow> dbf_header" where
  "DBFHeader_unpack d =
     \<lparr>dbversion = le_nat (slice 0 1 d), year = le_nat (slice 1 1 d),
      month = le_nat (slice 2 1 d), day = le_nat (slice 3 1 d),
      numrecords = le_nat (slice 4 4 d), headerlen = le_nat (slice 8 2 d),
      recordlen = le_nat (slice 10 2 d), h_reserved1 = le_nat (slice 12 2 d),
      incomplete_transaction = le_nat (slice 14 1 d),
      encryption_flag = le_nat (slice 15 1 d),
      free_record_thread = le_nat (slice 16 4 d), h_reserved2 = le_nat (slice 20 4 d),
      h_reserved3 = le_nat (slice 24 4 d), mdx_flag = le_nat (slice 28 1 d),
      language_driver = le_nat (slice 29 1 d), h_reserved4 = le_nat (slice 30 2 d)\<rparr>"

definition DBFField_unpack :: "bytes \<Rightarrow> (bytes, bytes) dbf_field" where
  "DBFField_unpack d =
     \<lparr>name = slice 0 11 d, ftype = slice 11 1 d, address = le_nat (slice 12 4 d),
      flength = le_nat (slice 16 1 d), decimal_count = le_nat (slice 17 1 d),
      reserved1 = le_nat (slice 18 2 d), workarea_id = le_nat (slice 20 1 d),
      reserved2 = le_nat (slice 21 1 d), reserved3 = le_nat (slice 22 1 d),
      set_fields_flag = le_nat (slice 23 1 d), reserved4 = slice 24 7 d,
      index_field_flag = le_nat (slice 31 1 d)\<rparr>"

text \<open>
  Modelled from the spec: \<^verbatim>\<open>StructParser.read(file, prepend)\<close>, of the module
  \<^verbatim>\<open>struct_parser\<close> that is not among the sources. The spec has the first byte of a
  descriptor "prepended to the subsequent fixed-size read" of a 32-byte layout: the
  bytes already read are completed to the size of the layout by one read, and a block
  that comes out short cannot be unpacked (\<^verbatim>\<open>struct.error\<close>).
\<close>

definition struct_read :: "nat \<Rightarrow> pyfile \<Rightarrow> bytes \<Rightarrow> error + (bytes \<times> pyfile)" where
  "struct_read sz f prepend =
     (case file_read f (sz - length prepend) of
        (d, f') \<Rightarrow>
          if length (prepend @ d) = sz then Inr (prepend @ d, f') else Inl StructError)"

definition DBFHeader_read :: "pyfile \<Rightarrow> error + (dbf_header \<times> pyfile)" where
  "DBFHeader_read f =
     (case struct_read 32 f [] of
        Inl e \<Rightarrow> Inl e
      | Inr (d, f') \<Rightarrow> Inr (DBFHeader_unpack d, f'))"

definition DBFField_read :: "pyfile \<Rightarrow> bytes \<Rightarrow> error + ((bytes, bytes) dbf_field \<times> pyfile)" where
  "DBFField_read f prepend =
     (case struct_read 32 f prepend of
        Inl e \<Rightarrow> Inl e
      | Inr (d, f') \<Rightarrow> Inr (DBFField_unpack d, f'))"

text \<open>\<^verbatim>\<open>fh._replace(name=fieldname, type=fieldtype)\<close>\<close>

definition replace_name_type ::
  "(bytes, bytes) dbf_field \<Rightarrow> unicode \<Rightarrow> unicode \<Rightarrow> field" where
  "replace_name_type fh fieldname fieldtype =
     \<lparr>name = fieldname, ftype = fieldtype, address = address fh, flength = flength fh,
      decimal_count = decimal_count fh, reserved1 = reserved1 fh,
      workarea_id = workarea_id fh, reserved2 = reserved2 fh, reserved3 = reserved3 fh,
      set_fields_flag = set_fields_flag fh, reserved4 = reserved4 fh,
      index_field_flag = index_field_flag fh\<rparr>"

subsection \<open>Values, collaborators and the table object\<close>

text \<open>
  A field value is \<^verbatim>\<open>None\<close>, a byte string (what \<^verbatim>\<open>read\<close> returns), a plain string
  literal of the source, a decoded text string (what \<^verbatim>\<open>parse_string\<close> returns), or
  another value of the field-type decoder (a number, a date, ...), which the table
  never inspects. A plain literal is a text string on Python 3 and the native string on
  Python 2.
\<close>

datatype 'v pyval = PyNone | PyBytes bytes | PyStr string | PyUnicode unicode | PyOther 'v

text \<open>What \<^verbatim>\<open>self.memofile[value]\<close> returns: an object with \<^verbatim>\<open>.type\<close> and \<^verbatim>\<open>.data\<close>.\<close>

record memo =
  memo_type :: string
  memo_data :: bytes

type_synonym 'v memofile = "'v pyval \<Rightarrow> error + memo"

text \<open>An instance of \<^verbatim>\<open>parserclass\<close>: the two methods the table calls.\<close>

record 'v field_parser =
  field_type_supported :: "unicode \<Rightarrow> bool"
  parse :: "field \<Rightarrow> bytes \<Rightarrow> error + 'v pyval"

text \<open>
  What the module imports and the interpreter it runs on. The modules \<^verbatim>\<open>codepages\<close>,
  \<^verbatim>\<open>common\<close>, \<^verbatim>\<open>ifiles\<close> and \<^verbatim>\<open>fpt\<close> are the spec's external collaborators and are
  parameters here, each free to raise. \<open>files\<close> is the file system. \<open>str_is_bytes\<close>
  tells whether a plain string literal such as \<^verbatim>\<open>'\n'\<close> or \<^verbatim>\<open>''\<close> is a byte string
  (Python 2) or a text string that never equals a byte string (Python 3): the source
  mixes \<^verbatim>\<open>b'...'\<close> and plain literals, and supports both interpreters.
\<close>

record 'v world =
  str_is_bytes :: bool
  files :: "string \<Rightarrow> bytes option"
  ifind :: "string \<Rightarrow> string option \<Rightarrow> string option"
  guess_encoding :: "nat \<Rightarrow> error + string"
  parse_string :: "bytes \<Rightarrow> string option \<Rightarrow> error + unicode"
  str_lower :: "unicode \<Rightarrow> unicode"
  FPT :: "string \<Rightarrow> error + 'v memofile"

text \<open>
  \<^verbatim>\<open>self.records\<close> and \<^verbatim>\<open>self.deleted\<close> hold either a \<^verbatim>\<open>RecordIterator(self, deleted)\<close>
  or a list. An item is a record, or \<^verbatim>\<open>None\<close> where the traversal only skips.
\<close>

datatype 'r record_source = RecordIterator bool | Materialized "'r option list"

datatype outcome = Returned | Raised error

record pydate =
  date_year :: int
  date_month :: nat
  date_day :: nat

text \<open>
  The attributes of a \<^verbatim>\<open>Table\<close>. An attribute that \<^verbatim>\<open>__init__\<close> assigns only after
  the file has been opened is \<open>None\<close> until then. \<^verbatim>\<open>self.fields\<close> is \<open>dbf_fields\<close> and
  \<^verbatim>\<open>self._field_parser\<close> is \<open>the_field_parser\<close>.
\<close>

record ('v, 'r) table =
  encoding :: "string option"
  ignorecase :: bool
  lowernames :: bool
  parserclass :: "string option \<Rightarrow> 'v field_parser"
  recfactory :: "(unicode \<times> 'v pyval) list \<Rightarrow> 'r"
  raw :: bool
  deleted :: "'r record_source"
  filename :: string
  memofilename :: "string option"
  header :: "dbf_header option"
  dbf_fields :: "field list"
  field_names :: "unicode list"
  the_field_parser :: "'v field_parser option"
  date :: "pydate option"
  memofile :: "'v memofile option"
  records :: "'r record_source option"
  loaded :: "bool option"

subsection \<open>\<^verbatim>\<open>datetime.date\<close>\<close>

definition is_leap :: "int \<Rightarrow> bool" where
  "is_leap y = (y mod 4 = 0 \<and> (y mod 400 = 0 \<or> y mod 100 \<noteq> 0))"

definition days_in_month :: "int \<Rightarrow> nat \<Rightarrow> nat" where
  "days_in_month y m =
     (if m = 2 then (if is_leap y then 29 else 28)
      else if m = 4 \<or> m = 6 \<or> m = 9 \<or> m = 11 then 30 else 31)"

definition datetime_date :: "int \<Rightarrow> nat \<Rightarrow> nat \<Rightarrow> error + pydate" where
  "datetime_date y m d =
     (if y < 1 \<or> 9999 < y then Inl (ValueError (Other_message ''year is out of range''))
      else if m < 1 \<or> 12 < m then Inl (ValueError (Other_message ''month must be in 1..12''))
      else if d < 1 \<or> days_in_month y m < d
        then Inl (ValueError (Other_message ''day is out of range for month''))
      else Inr \<lparr>date_year = y, date_month = m, date_day = d\<rparr>)"

subsection \<open>\<^verbatim>\<open>Table._read_headers\<close>\<close>

text \<open>
  The test \<^verbatim>\<open>sep in (b'\x0d', '\n', '')\<close>: the first element is a byte string on
  every interpreter, the other two are plain literals.
\<close>

definition end_of_field_headers :: "'v world \<Rightarrow> bytes \<Rightarrow> bool" where
  "end_of_field_headers w sep =
     (sep = [0x0D] \<or> (str_is_bytes w \<and> (sep = [0x0A] \<or> sep = [])))"

lemma struct_read_pos:
  assumes "struct_read sz f prepend = Inr (d, f')" and "length prepend < sz"
  shows "data f' = data f \<and> pos f' + length prepend = pos f + sz \<and> pos f' \<le> length (data f)"
proof -
  from assms have "sz - length prepend \<le> length (data f) - pos f"
    by (auto simp: struct_read_def file_read_def Let_def split: if_splits)
  with assms show ?thesis
    by (auto simp: struct_read_def file_read_def Let_def min_def split: if_splits)
qed

lemma file_read_pos:
  assumes "file_read f n = (d, f')"
  shows "data f' = data f \<and> pos f' = pos f + length d \<and> length d \<le> n
         \<and> (d \<noteq> [] \<longrightarrow> pos f < pos f' \<and> pos f' \<le> length (data f))"
  using assms by (auto simp: file_read_def Let_def)

lemma DBFField_read_progress:
  assumes "(sep, f1) = file_read f 1" and "DBFField_read f1 sep = Inr (fh, f2)"
  shows "length (data f2) - pos f2 < length (data f) - pos f"
proof -
  from assms(1) have r1: "file_read f 1 = (sep, f1)" by simp
  from assms(2) obtain d where sr: "struct_read 32 f1 sep = Inr (d, f2)"
    by (auto simp: DBFField_read_def split: sum.splits prod.splits)
  from file_read_pos [OF r1] have l1: "length sep < 32" by simp
  from file_read_pos [OF r1] struct_read_pos [OF sr l1]
  have "data f2 = data f" "pos f2 = pos f + 32" "pos f2 \<le> length (data f)"
    by auto
  then show ?thesis by simp
qed

text \<open>
  The body of the loop after \<^verbatim>\<open>DBFField.read\<close>: the name and the type are decoded
  and the descriptor is appended.
\<close>

definition add_field_header ::
  "'v world \<Rightarrow> ('v, 'r) table \<Rightarrow> (bytes, bytes) dbf_field \<Rightarrow> error + ('v, 'r) table" where
  "add_field_header w t fh =
     (case parse_string w (name fh) (encoding t) of
        Inl e \<Rightarrow> Inl e
      | Inr fieldname0 \<Rightarrow>
          (let fieldname = (if lowernames t then str_lower w fieldname0 else fieldname0) in
             (case parse_string w (ftype fh) (encoding t) of
                Inl e \<Rightarrow> Inl e
              | Inr fieldtype \<Rightarrow>
                  (let fh' = replace_name_type fh fieldname fieldtype in
                     Inr (t\<lparr>field_names := field_names t @ [name fh'],
                            dbf_fields := dbf_fields t @ [fh']\<rparr>)))))"

text \<open>The \<^verbatim>\<open>while 1\<close> loop that reads the field headers.\<close>

function read_field_headers ::
  "'v world \<Rightarrow> ('v, 'r) table \<Rightarrow> pyfile \<Rightarrow> error + (('v, 'r) table \<times> pyfile)" where
  "read_field_headers w t f =
     (case file_read f 1 of
        (sep, f1) \<Rightarrow>
          if end_of_field_headers w sep then Inr (t, f1)
          else
            (case DBFField_read f1 sep of
               Inl e \<Rightarrow> Inl e
             | Inr (fh, f2) \<Rightarrow>
                 (case add_field_header w t fh of
                    Inl e \<Rightarrow> Inl e
                  | Inr t' \<Rightarrow> read_field_headers w t' f2)))"
  by pat_completeness auto
termination
  by (relation "measure (\<lambda>(w, t, f). length (data f) - pos f)")
     (auto intro: DBFField_read_progress)

declare read_field_headers.simps [simp del]

text \<open>
  \<^verbatim>\<open>_read_headers\<close>: the header, the encoding, the field headers, the check that
  there is a field, and the memo file. \<^verbatim>\<open>guess_encoding\<close> is caught only where it
  raises \<^verbatim>\<open>LookupError\<close>. \<open>Missing_memo_file\<close> carries \<^verbatim>\<open>self.filename\<close>, whose
  extension the message replaces by \<^verbatim>\<open>.fpt\<close>.
\<close>

definition resolve_encoding ::
  "'v world \<Rightarrow> ('v, 'r) table \<Rightarrow> dbf_header \<Rightarrow> error + ('v, 'r) table" where
  "resolve_encoding w t h =
     (if encoding t = None then
        (case guess_encoding w (language_driver h) of
           Inr enc \<Rightarrow> Inr (t\<lparr>encoding := Some enc\<rparr>)
         | Inl err \<Rightarrow>
             if err = LookupError then Inr (t\<lparr>encoding := Some ''latin1''\<rparr>) else Inl err)
      else Inr t)"

definition check_for_memo_file ::
  "'v world \<Rightarrow> ('v, 'r) table \<Rightarrow> error + ('v, 'r) table" where
  "check_for_memo_file w t =
     (let field_types = set (map ftype (dbf_fields t)) in
        if ustr ''M'' \<in> field_types then
          (case ifind w (filename t) (Some ''.fpt'') of
             None \<Rightarrow> Inl (IOError (Missing_memo_file (filename t)))
           | Some match \<Rightarrow>
               if match \<noteq> [] then Inr (t\<lparr>memofilename := Some match\<rparr>)
               else Inl (IOError (Missing_memo_file (filename t))))
        else Inr t)"

definition read_headers ::
  "'v world \<Rightarrow> ('v, 'r) table \<Rightarrow> pyfile \<Rightarrow> error + ('v, 'r) table" where
  "read_headers w t f =
     (case DBFHeader_read f of
        Inl e \<Rightarrow> Inl e
      | Inr (h, f1) \<Rightarrow>
          (case resolve_encoding w (t\<lparr>header := Some h\<rparr>) h of
             Inl e \<Rightarrow> Inl e
           | Inr t1 \<Rightarrow>
               (case read_field_headers w t1 f1 of
                  Inl e \<Rightarrow> Inl e
                | Inr (t2, f2) \<Rightarrow>
                    if length (dbf_fields t2) < 1
                    then Inl (ValueError (Must_have_at_least_one_field (filename t2)))
                    else check_for_memo_file w t2)))"

subsection \<open>\<^verbatim>\<open>Table._check_headers\<close>\<close>

text \<open>
  The body of the loop: the \<^verbatim>\<open>if\<close>/\<^verbatim>\<open>elif\<close> chain for one field, with the exception
  it raises, if any. The field parser is looked up only in the last branch.
\<close>

definition check_field :: "'v field_parser option \<Rightarrow> field \<Rightarrow> error option" where
  "check_field p field =
     (if ftype field = ustr ''0'' \<and> flength field \<noteq> 1
        then Some (ValueError (Type_0_must_have_length_1 (flength field)))
      else if ftype field = ustr ''I'' \<and> flength field \<noteq> 4
        then Some (ValueError (Type_I_must_have_length_4 (flength field)))
      else if ftype field = ustr ''L'' \<and> flength field \<noteq> 1
        then Some (ValueError (Type_L_must_have_length_1 (flength field)))
      else
        (case p of
           None \<Rightarrow> Some AttributeError
         | Some fp \<Rightarrow>
             if \<not> field_type_supported fp (ftype field)
             then Some (ValueError (Unknown_field_type (ftype field)))
             else None))"

fun check_fields :: "'v field_parser option \<Rightarrow> field list \<Rightarrow> error + unit" where
  "check_fields p [] = Inr ()"
| "check_fields p (field # rest) =
     (case check_field p field of
        Some e \<Rightarrow> Inl e
      | None \<Rightarrow> check_fields p rest)"

definition check_headers :: "('v, 'r) table \<Rightarrow> error + unit" where
  "check_headers t = check_fields (the_field_parser t) (dbf_fields t)"

subsection \<open>\<^verbatim>\<open>Table._read_record\<close> and \<^verbatim>\<open>Table._skip_record\<close>\<close>

text \<open>The body of the loop over the fields, from the bytes read to the value.\<close>

definition field_value ::
  "'v world \<Rightarrow> ('v, 'r) table \<Rightarrow> field \<Rightarrow> bytes \<Rightarrow> error + 'v pyval" where
  "field_value w t field v0 =
     (if raw t then Inr (PyBytes v0)
      else
        (case the_field_parser t of
           None \<Rightarrow> Inl AttributeError
         | Some fp \<Rightarrow>
             (case parse fp field v0 of
                Inl e \<Rightarrow> Inl e
              | Inr v \<Rightarrow>
                  if ftype field = ustr ''M'' then
                    (case v of
                       PyNone \<Rightarrow> Inr (PyStr [])
                     | _ \<Rightarrow>
                         (case memofile t of
                            None \<Rightarrow> Inl TypeError
                          | Some mf \<Rightarrow>
                              (case mf v of
                                 Inl e \<Rightarrow> Inl e
                               | Inr m \<Rightarrow>
                                   if memo_type m = ''memo'' \<and> \<not> raw t then
                                     (case parse_string w (memo_data m) (encoding t) of
                                        Inl e \<Rightarrow> Inl e
                                      | Inr s \<Rightarrow> Inr (PyUnicode s))
                                   else Inr (PyBytes (memo_data m)))))
                  else Inr v)))"

fun read_items ::
  "'v world \<Rightarrow> ('v, 'r) table \<Rightarrow> field list \<Rightarrow> pyfile
     \<Rightarrow> error + ((unicode \<times> 'v pyval) list \<times> pyfile)" where
  "read_items w t [] f = Inr ([], f)"
| "read_items w t (field # rest) f =
     (case file_read f (flength field) of
        (v0, f1) \<Rightarrow>
          (case field_value w t field v0 of
             Inl e \<Rightarrow> Inl e
           | Inr v \<Rightarrow>
               (case read_items w t rest f1 of
                  Inl e \<Rightarrow> Inl e
                | Inr (items, f2) \<Rightarrow> Inr ((name field, v) # items, f2))))"

definition read_record ::
  "'v world \<Rightarrow> ('v, 'r) table \<Rightarrow> pyfile \<Rightarrow> error + ('r \<times> pyfile)" where
  "read_record w t f =
     (case read_items w t (dbf_fields t) f of
        Inl e \<Rightarrow> Inl e
      | Inr (items, f') \<Rightarrow> Inr (recfactory t items, f'))"

definition skip_record :: "('v, 'r) table \<Rightarrow> pyfile \<Rightarrow> pyfile" where
  "skip_record t infile = seek_cur infile (sum_list (map flength (dbf_fields t)))"

subsection \<open>\<^verbatim>\<open>Table._iter_records\<close>\<close>

lemma read_items_pos:
  "read_items w t fs f = Inr (items, f') \<Longrightarrow> data f' = data f \<and> pos f \<le> pos f'"
proof (induction fs arbitrary: f items)
  case Nil
  then show ?case by simp
next
  case (Cons field rest)
  obtain v0 f1 where r: "file_read f (flength field) = (v0, f1)"
    by (cases "file_read f (flength field)")
  with Cons.prems obtain v its where
    "read_items w t rest f1 = Inr (its, f')"
    by (auto split: sum.splits prod.splits)
  from Cons.IH [OF this] file_read_pos [OF r] show ?case by simp
qed

lemma read_record_progress:
  assumes "(sep, f1) = file_read f 1" and "sep \<noteq> []"
    and "read_record w t f1 = Inr (r, f2)"
  shows "length (data f2) - pos f2 < length (data f) - pos f"
proof -
  from assms(1) have r1: "file_read f 1 = (sep, f1)" by simp
  from assms(3) obtain items where "read_items w t (dbf_fields t) f1 = Inr (items, f2)"
    by (auto simp: read_record_def split: sum.splits prod.splits)
  from read_items_pos [OF this] file_read_pos [OF r1] assms(2)
  have "data f2 = data f" "pos f < pos f2" "pos f < length (data f)"
    by auto
  then show ?thesis by simp
qed

lemma skip_record_progress:
  assumes "(sep, f1) = file_read f 1" and "sep \<noteq> []"
  shows "length (data (skip_record t f1)) - pos (skip_record t f1) < length (data f) - pos f"
proof -
  from assms(1) have r1: "file_read f 1 = (sep, f1)" by simp
  from file_read_pos [OF r1] assms(2)
  have "data f1 = data f" "pos f < pos f1" "pos f < length (data f)"
    by auto
  then show ?thesis by (simp add: skip_record_def seek_cur_def)
qed

text \<open>
  The \<^verbatim>\<open>while True\<close> loop of the generator. The result is what the generator yields
  when it is run to its end, and how it ends: by \<^verbatim>\<open>return\<close> or by an exception
  (after the items yielded before it). \<^verbatim>\<open>sep not in b' *'\<close> is applied to a one-byte
  \<open>sep\<close> only. A skipped record of interest yields what \<^verbatim>\<open>_skip_record\<close> returns,
  \<^verbatim>\<open>None\<close>.
\<close>

function iter_records_loop ::
  "'v world \<Rightarrow> ('v, 'r) table \<Rightarrow> bool \<Rightarrow> bool \<Rightarrow> pyfile \<Rightarrow> 'r option list \<times> outcome" where
  "iter_records_loop w t del rd infile =
     (case file_read infile 1 of
        (sep, f1) \<Rightarrow>
          if sep = [] \<or> sep = [0x1A] then ([], Returned)
          else if sep \<noteq> [0x20] \<and> sep \<noteq> [0x2A]
            then ([], Raised (IOError (Invalid_record_separator sep)))
          else
            (let interesting_record =
                   (if del \<and> sep = [0x2A] then True
                    else if \<not> del \<and> sep = [0x20] then True
                    else False)
             in
               if interesting_record then
                 (if rd then
                    (case read_record w t f1 of
                       Inl e \<Rightarrow> ([], Raised e)
                     | Inr (r, f2) \<Rightarrow>
                         (case iter_records_loop w t del rd f2 of
                            (items, out) \<Rightarrow> (Some r # items, out)))
                  else
                    (case iter_records_loop w t del rd (skip_record t f1) of
                       (items, out) \<Rightarrow> (None # items, out)))
               else iter_records_loop w t del rd (skip_record t f1)))"
  by pat_completeness auto
termination
  by (relation "measure (\<lambda>(w, t, del, rd, f). length (data f) - pos f)")
     (auto intro: read_record_progress skip_record_progress)

declare iter_records_loop.simps [simp del]

text \<open>
  \<^verbatim>\<open>_iter_records\<close>: open the file, seek to the first record, run the loop.
\<close>

definition iter_records ::
  "'v world \<Rightarrow> ('v, 'r) table \<Rightarrow> bool \<Rightarrow> bool \<Rightarrow> 'r option list \<times> outcome" where
  "iter_records w t del rd =
     (case files w (filename t) of
        None \<Rightarrow> ([], Raised (IOError (Errno_2 (filename t))))
      | Some d \<Rightarrow>
          (case header t of
             None \<Rightarrow> ([], Raised AttributeError)
           | Some h \<Rightarrow>
               iter_records_loop w t del rd
                 (seek_set \<lparr>data = d, pos = 0\<rparr> (headerlen h))))"

subsection \<open>\<^verbatim>\<open>RecordIterator\<close>\<close>

definition RecordIterator_iter ::
  "'v world \<Rightarrow> ('v, 'r) table \<Rightarrow> bool \<Rightarrow> 'r option list \<times> outcome" where
  "RecordIterator_iter w t del = iter_records w t del True"

definition RecordIterator_len :: "'v world \<Rightarrow> ('v, 'r) table \<Rightarrow> bool \<Rightarrow> error + nat" where
  "RecordIterator_len w t del =
     (case iter_records w t del False of
        (items, Returned) \<Rightarrow> Inr (length items)
      | (items, Raised e) \<Rightarrow> Inl e)"

text \<open>
  \<^verbatim>\<open>list(it)\<close> of a generator run to its end: the items, unless it raised.
\<close>

definition run_to_list :: "'r option list \<times> outcome \<Rightarrow> error + 'r option list" where
  "run_to_list g = (case g of (items, Returned) \<Rightarrow> Inr items | (items, Raised e) \<Rightarrow> Inl e)"

text \<open>
  \<^verbatim>\<open>list(RecordIterator(...))\<close>. The interpreter first asks an iterable that has
  \<^verbatim>\<open>__len__\<close> for its length, as a size hint, and lets every exception of that call
  through but \<^verbatim>\<open>TypeError\<close> (and, on Python 2, \<^verbatim>\<open>AttributeError\<close>); then it runs the
  iteration.
\<close>

definition list_of_RecordIterator ::
  "'v world \<Rightarrow> ('v, 'r) table \<Rightarrow> bool \<Rightarrow> error + 'r option list" where
  "list_of_RecordIterator w t del =
     (case RecordIterator_len w t del of
        Inl e \<Rightarrow>
          if e = TypeError \<or> (str_is_bytes w \<and> e = AttributeError)
          then run_to_list (RecordIterator_iter w t del)
          else Inl e
      | Inr n \<Rightarrow> run_to_list (RecordIterator_iter w t del))"

subsection \<open>\<^verbatim>\<open>Table\<close>: construction, \<^verbatim>\<open>load\<close>, \<^verbatim>\<open>unload\<close>, iteration and length\<close>

definition load :: "'v world \<Rightarrow> ('v, 'r) table \<Rightarrow> error + ('v, 'r) table" where
  "load w t =
     (case list_of_RecordIterator w t False of
        Inl e \<Rightarrow> Inl e
      | Inr rs \<Rightarrow>
          (let t1 = t\<lparr>records := Some (Materialized rs)\<rparr> in
             (case list_of_RecordIterator w t1 True of
                Inl e \<Rightarrow> Inl e
              | Inr ds \<Rightarrow> Inr (t1\<lparr>deleted := Materialized ds, loaded := Some True\<rparr>))))"

definition unload :: "('v, 'r) table \<Rightarrow> ('v, 'r) table" where
  "unload t =
     t\<lparr>records := Some (RecordIterator False), deleted := RecordIterator True,
       loaded := Some False\<rparr>"

text \<open>Iterating over, and taking the length of, what an attribute holds.\<close>

definition iter_source ::
  "'v world \<Rightarrow> ('v, 'r) table \<Rightarrow> 'r record_source \<Rightarrow> 'r option list \<times> outcome" where
  "iter_source w t src =
     (case src of
        RecordIterator del \<Rightarrow> RecordIterator_iter w t del
      | Materialized rs \<Rightarrow> (rs, Returned))"

definition len_source ::
  "'v world \<Rightarrow> ('v, 'r) table \<Rightarrow> 'r record_source \<Rightarrow> error + nat" where
  "len_source w t src =
     (case src of
        RecordIterator del \<Rightarrow> RecordIterator_len w t del
      | Materialized rs \<Rightarrow> Inr (length rs))"

definition Table_iter :: "'v world \<Rightarrow> ('v, 'r) table \<Rightarrow> 'r option list \<times> outcome" where
  "Table_iter w t =
     (case records t of
        None \<Rightarrow> ([], Raised AttributeError)
      | Some src \<Rightarrow> iter_source w t src)"

definition Table_len :: "'v world \<Rightarrow> ('v, 'r) table \<Rightarrow> error + nat" where
  "Table_len w t =
     (case records t of
        None \<Rightarrow> Inl AttributeError
      | Some src \<Rightarrow> len_source w t src)"

text \<open>
  The part of \<^verbatim>\<open>__init__\<close> under \<^verbatim>\<open>with open(...)\<close>, after \<^verbatim>\<open>_read_headers\<close>: the
  field parser, \<^verbatim>\<open>_check_headers\<close>, the date, the memo file.
\<close>

definition after_read_headers ::
  "'v world \<Rightarrow> ('v, 'r) table \<Rightarrow> error + ('v, 'r) table" where
  "after_read_headers w t1 =
     (let t2 = t1\<lparr>the_field_parser := Some (parserclass t1 (encoding t1))\<rparr> in
        (case check_headers t2 of
           Inl e \<Rightarrow> Inl e
         | Inr u \<Rightarrow>
             (case header t2 of
                None \<Rightarrow> Inl AttributeError
              | Some h \<Rightarrow>
                  (case datetime_date (expand_year (int (year h))) (month h) (day h) of
                     Inl e \<Rightarrow> Inl e
                   | Inr d \<Rightarrow>
                       (let t3 = t2\<lparr>date := Some d\<rparr> in
                          (case memofilename t3 of
                             None \<Rightarrow> Inr (t3\<lparr>memofile := None\<rparr>)
                           | Some mfn \<Rightarrow>
                               if mfn \<noteq> [] \<and> \<not> raw t3 then
                                 (case FPT w mfn of
                                    Inl e \<Rightarrow> Inl e
                                  | Inr mf \<Rightarrow> Inr (t3\<lparr>memofile := Some mf\<rparr>))
                               else Inr (t3\<lparr>memofile := None\<rparr>)))))))"

text \<open>
  \<^verbatim>\<open>Table.__init__\<close>, with the arguments of the source in their order; \<open>load_arg\<close> is the
  argument \<^verbatim>\<open>load\<close>. \<^verbatim>\<open>self.name\<close>, which nothing else reads, is left out. First the
  file name is resolved, then the attributes get their first values, then the file is
  opened.
\<close>

definition resolve_filename :: "'v world \<Rightarrow> string \<Rightarrow> bool \<Rightarrow> error + string" where
  "resolve_filename w fname icase =
     (if icase then
        (case ifind w fname None of
           None \<Rightarrow> Inl (IOError (No_such_file fname))
         | Some found \<Rightarrow>
             if found = [] then Inl (IOError (No_such_file fname)) else Inr found)
      else Inr fname)"

definition initial_table ::
  "string \<Rightarrow> string option \<Rightarrow> bool \<Rightarrow> bool \<Rightarrow> (string option \<Rightarrow> 'v field_parser)
     \<Rightarrow> ((unicode \<times> 'v pyval) list \<Rightarrow> 'r) \<Rightarrow> bool \<Rightarrow> ('v, 'r) table" where
  "initial_table resolved enc icase lnames pclass rfactory raw_arg =
     \<lparr>encoding = enc, ignorecase = icase, lowernames = lnames, parserclass = pclass,
      recfactory = rfactory, raw = raw_arg, deleted = Materialized [],
      filename = resolved, memofilename = None, header = None, dbf_fields = [],
      field_names = [], the_field_parser = None, date = None, memofile = None,
      records = None, loaded = None\<rparr>"

definition Table_init ::
  "'v world \<Rightarrow> string \<Rightarrow> string option \<Rightarrow> bool \<Rightarrow> bool \<Rightarrow> (string option \<Rightarrow> 'v field_parser)
     \<Rightarrow> ((unicode \<times> 'v pyval) list \<Rightarrow> 'r) \<Rightarrow> bool \<Rightarrow> bool \<Rightarrow> error + ('v, 'r) table" where
  "Table_init w fname enc icase lnames pclass rfactory load_arg raw_arg =
     (case resolve_filename w fname icase of
        Inl e \<Rightarrow> Inl e
      | Inr resolved \<Rightarrow>
          (case files w resolved of
             None \<Rightarrow> Inl (IOError (Errno_2 resolved))
           | Some d \<Rightarrow>
               (case read_headers w
                       (initial_table resolved enc icase lnames pclass rfactory raw_arg)
                       \<lparr>data = d, pos = 0\<rparr> of
                  Inl e \<Rightarrow> Inl e
                | Inr t1 \<Rightarrow>
                    (case after_read_headers w t1 of
                       Inl e \<Rightarrow> Inl e
                     | Inr t4 \<Rightarrow> if load_arg then load w t4 else Inr (unload t4)))))"

section \<open>The record area and raw mode as the spec describes them\<close>

text \<open>
  The spec's record area: records of a fixed byte length, the header's declared record
  length, each prefixed by a one-byte marker, the area terminated by 0x1A or by the
  physical end of the file. \<open>record_area_markers reclen area\<close> lists the marker bytes
  of the records of \<open>area\<close>, the bytes from the header length on: the byte at every
  multiple of \<open>reclen\<close>, up to the terminator.
\<close>

fun record_area_markers :: "nat \<Rightarrow> bytes \<Rightarrow> bytes" where
  "record_area_markers reclen [] = []"
| "record_area_markers reclen (m # rest) =
     (if m = 0x1A then [] else m # record_area_markers reclen (drop (reclen - 1) rest))"

text \<open>
  The spec's raw mode: the bytes of a record are cut into the fields' slots, in schema
  order, each of the field's declared length, and each field is paired with the bytes of
  its slot. \<open>raw_items fs bs\<close> does this for the fields \<open>fs\<close> and the bytes \<open>bs\<close> from
  the start of the record's first slot on.
\<close>

fun raw_items :: "field list \<Rightarrow> bytes \<Rightarrow> (unicode \<times> 'v pyval) list" where
  "raw_items [] bs = []"
| "raw_items (field # rest) bs =
     (name field, PyBytes (take (flength field) bs)) # raw_items rest (drop (flength field) bs)"

section \<open>Concrete collaborators, tables and files\<close>

text \<open>
  Stand-ins for the collaborators, used where a property is evaluated on a concrete
  input: a field parser that decodes a memo field to its little-endian number
  (\<^verbatim>\<open>None\<close> for 0) and returns the bytes of every other field, a field parser that
  supports no type at all, an \<^verbatim>\<open>FPT\<close> that always raises, a memo file with a
  text memo at 1 and a binary one at 2, a \<^verbatim>\<open>guess_encoding\<close> that knows the language
  driver 0 only, and a \<^verbatim>\<open>parse_string\<close> that cuts at the first zero byte and decodes
  each byte to its code point.
\<close>

definition demo_field :: "string \<Rightarrow> string \<Rightarrow> nat \<Rightarrow> field" where
  "demo_field nm ty len =
     \<lparr>name = ustr nm, ftype = ustr ty, address = 0, flength = len, decimal_count = 0,
      reserved1 = 0, workarea_id = 0, reserved2 = 0, reserved3 = 0, set_fields_flag = 0,
      reserved4 = [], index_field_flag = 0\<rparr>"

definition demo_parser :: "string option \<Rightarrow> nat field_parser" where
  "demo_parser enc =
     \<lparr>field_type_supported = (\<lambda>ty. ty \<in> set (map ustr [''C'', ''N'', ''M'', ''0'', ''I'', ''L''])),
      parse = (\<lambda>field v0.
         if ftype field = ustr ''M''
         then (if le_nat v0 = 0 then Inr PyNone else Inr (PyOther (le_nat v0)))
         else Inr (PyBytes v0))\<rparr>"


definition demo_failing_FPT :: "string \<Rightarrow> error + nat memofile" where
  "demo_failing_FPT p = Inl (IOError (Other_message ''the memo file cannot be read''))"

definition demo_memofile :: "nat memofile" where
  "demo_memofile v =
     (case v of
        PyOther n \<Rightarrow>
          if n = 1 then Inr \<lparr>memo_type = ''memo'', memo_data = [0x68, 0x69]\<rparr>
          else if n = 2 then Inr \<lparr>memo_type = ''picture'', memo_data = [0xFF, 0xD8]\<rparr>
          else Inl (IOError (Other_message ''no such memo''))
      | _ \<Rightarrow> Inl TypeError)"

definition demo_world :: "bool \<Rightarrow> (string \<Rightarrow> bytes option) \<Rightarrow> nat world" where
  "demo_world py2 fs =
     \<lparr>str_is_bytes = py2, files = fs,
      ifind = (\<lambda>p ext.
         case ext of
           None \<Rightarrow> (if fs p = None then None else Some p)
         | Some e \<Rightarrow> (if fs ''t.fpt'' = None then None else Some ''t.fpt'')),
      guess_encoding = (\<lambda>n. if n = 0 then Inr ''ascii'' else Inl LookupError),
      parse_string = (\<lambda>b enc. Inr (map unat (takeWhile (\<lambda>c. c \<noteq> 0) b))),
      str_lower = (\<lambda>u. u),
      FPT = (\<lambda>p. Inr demo_memofile)\<rparr>"

definition demo_table ::
  "bool \<Rightarrow> field list \<Rightarrow> (nat, (unicode \<times> nat pyval) list) table" where
  "demo_table raw_arg fs =
     (initial_table ''t.dbf'' (Some ''ascii'') True False demo_parser (\<lambda>items. items) raw_arg)
       \<lparr>dbf_fields := fs, the_field_parser := Some (demo_parser (Some ''ascii'')),
        memofile := (if raw_arg then None else Some demo_memofile)\<rparr>"

text \<open>
  A table file: the header (header length and record length given), one descriptor per
  field (name of one letter, type, length), the terminator 0x0D, and three records of one
  field \<^verbatim>\<open>A\<close> of type \<^verbatim>\<open>C\<close> and length 2, the second one deleted, then 0x1A.
\<close>

definition demo_header_bytes :: "nat \<Rightarrow> nat \<Rightarrow> bytes" where
  "demo_header_bytes hlen rlen =
     [3, 99, 12, 31, 3, 0, 0, 0, of_nat hlen, 0, of_nat rlen, 0,
      0, 0, 0, 0, 0, 0, 0, 0, 0, 0, 0, 0, 0, 0, 0, 0, 0, 0, 0, 0]"

definition demo_descriptor :: "byte \<Rightarrow> byte \<Rightarrow> nat \<Rightarrow> bytes" where
  "demo_descriptor nm ty len =
     [nm, 0, 0, 0, 0, 0, 0, 0, 0, 0, 0, ty, 0, 0, 0, 0, of_nat len, 0,
      0, 0, 0, 0, 0, 0, 0, 0, 0, 0, 0, 0, 0, 0]"

definition demo_dbf :: bytes where
  "demo_dbf =
     demo_header_bytes 65 3 @ demo_descriptor 0x41 0x43 2 @ [0x0D]
       @ [0x20, 0x61, 0x62, 0x2A, 0x63, 0x64, 0x20, 0x65, 0x66, 0x1A]"

definition demo_files :: "string \<Rightarrow> bytes option" where
  "demo_files = Map.empty(''t.dbf'' \<mapsto> demo_dbf)"

text \<open>A table file with a second field \<^verbatim>\<open>B\<close> of type \<^verbatim>\<open>L\<close> and length 2.\<close>

definition demo_bad_dbf :: bytes where
  "demo_bad_dbf =
     demo_header_bytes 97 4 @ demo_descriptor 0x41 0x43 2 @ demo_descriptor 0x42 0x4C 2 @ [0x0D]
       @ [0x20, 0x61, 0x62, 0x54, 0x46, 0x1A]"

text \<open>A table file whose schema section is the terminator alone.\<close>

definition demo_empty_dbf :: bytes where
  "demo_empty_dbf = demo_header_bytes 33 1 @ [0x0D, 0x20, 0x20, 0x1A]"

text \<open>
  A table file with a second field \<^verbatim>\<open>B\<close> of type \<^verbatim>\<open>M\<close> and length 1, the memo index.
\<close>

definition demo_memo_dbf :: bytes where
  "demo_memo_dbf =
     demo_header_bytes 97 4 @ demo_descriptor 0x41 0x43 2 @ demo_descriptor 0x42 0x4D 1 @ [0x0D]
       @ [0x20, 0x61, 0x62, 0x01, 0x2A, 0x63, 0x64, 0x02, 0x20, 0x65, 0x66, 0x00, 0x1A]"

definition demo_header :: dbf_header where
  "demo_header = DBFHeader_unpack (demo_header_bytes 65 3)"

section \<open>Auxiliary facts\<close>

lemma file_read_remaining:
  assumes "file_read f n = (d, f')"
  shows "d = take n (remaining f) \<and> remaining f' = drop n (remaining f)"
proof -
  from assms have d: "d = take n (drop (pos f) (data f))" and f': "f' = f\<lparr>pos := pos f + length d\<rparr>"
    by (auto simp: file_read_def Let_def)
  have "drop (pos f + length d) (data f) = drop n (drop (pos f) (data f))"
  proof (cases "n \<le> length (data f) - pos f")
    case True
    then show ?thesis by (simp add: d min_def add.commute)
  next
    case False
    then show ?thesis by (simp add: d min_def)
  qed
  with d f' show ?thesis by (simp add: remaining_def)
qed

lemma skip_record_remaining:
  "remaining (skip_record t f) = drop (sum_list (map flength (dbf_fields t))) (remaining f)"
  by (simp add: remaining_def skip_record_def seek_cur_def add.commute)

lemma read_items_remaining:
  "read_items w t fs f = Inr (items, f') \<Longrightarrow>
     remaining f' = drop (sum_list (map flength fs)) (remaining f)"
proof (induction fs arbitrary: f items)
  case Nil
  then show ?case by simp
next
  case (Cons field rest)
  obtain v0 f1 where r: "file_read f (flength field) = (v0, f1)"
    by (cases "file_read f (flength field)")
  with Cons.prems obtain its where "read_items w t rest f1 = Inr (its, f')"
    by (auto split: sum.splits prod.splits)
  from Cons.IH [OF this] file_read_remaining [OF r] show ?case
    by (simp add: add.commute)
qed

lemma read_record_remaining:
  "read_record w t f = Inr (r, f') \<Longrightarrow>
     remaining f' = drop (sum_list (map flength (dbf_fields t))) (remaining f)"
  by (auto simp: read_record_def split: sum.splits prod.splits dest: read_items_remaining)

lemma loop_end:
  "file_read f 1 = (sep, f1) \<Longrightarrow> sep = [] \<or> sep = [0x1A] \<Longrightarrow>
     iter_records_loop w t del rd f = ([], Returned)"
  by (subst iter_records_loop.simps) auto

lemma loop_invalid:
  "file_read f 1 = (sep, f1) \<Longrightarrow> sep \<noteq> [] \<Longrightarrow> sep \<noteq> [0x1A] \<Longrightarrow> sep \<noteq> [0x20] \<Longrightarrow>
     sep \<noteq> [0x2A] \<Longrightarrow>
     iter_records_loop w t del rd f = ([], Raised (IOError (Invalid_record_separator sep)))"
  by (subst iter_records_loop.simps) auto

lemma loop_decode:
  "file_read f 1 = (sep, f1) \<Longrightarrow> sep = (if del then [0x2A] else [0x20]) \<Longrightarrow>
     iter_records_loop w t del True f =
       (case read_record w t f1 of
          Inl e \<Rightarrow> ([], Raised e)
        | Inr (r, f2) \<Rightarrow>
            (case iter_records_loop w t del True f2 of
               (items, out) \<Rightarrow> (Some r # items, out)))"
  by (subst iter_records_loop.simps) auto

lemma loop_count:
  "file_read f 1 = (sep, f1) \<Longrightarrow> sep = (if del then [0x2A] else [0x20]) \<Longrightarrow>
     iter_records_loop w t del False f =
       (case iter_records_loop w t del False (skip_record t f1) of
          (items, out) \<Rightarrow> (None # items, out))"
  by (subst iter_records_loop.simps) auto

lemma loop_pass:
  "file_read f 1 = (sep, f1) \<Longrightarrow> sep = (if del then [0x20] else [0x2A]) \<Longrightarrow>
     iter_records_loop w t del rd f = iter_records_loop w t del rd (skip_record t f1)"
  by (subst iter_records_loop.simps) auto

lemma skip_matches_decode:
  "iter_records_loop w t del True f = (recs, Returned) \<Longrightarrow> remaining g = remaining f \<Longrightarrow>
     iter_records_loop w t del False g = (replicate (length recs) None, Returned)"
proof (induction "length (remaining f)" arbitrary: f g recs rule: less_induct)
  case less
  let ?n = "sum_list (map flength (dbf_fields t))"
  obtain sep f1 where rf: "file_read f 1 = (sep, f1)"
    by (cases "file_read f 1")
  obtain sep' g1 where rg': "file_read g 1 = (sep', g1)"
    by (cases "file_read g 1")
  from file_read_remaining [OF rf] file_read_remaining [OF rg'] less.prems(2)
  have "sep' = sep" and rem1: "remaining g1 = remaining f1"
    and sep: "sep = take 1 (remaining f)" and f1: "remaining f1 = drop 1 (remaining f)"
    by simp_all
  with rg' have rg: "file_read g 1 = (sep, g1)" by simp
  consider (stop) "sep = [] \<or> sep = [0x1A]"
    | (invalid) "sep \<noteq> []" "sep \<noteq> [0x1A]" "sep \<noteq> [0x20]" "sep \<noteq> [0x2A]"
    | (hit) "sep = (if del then [0x2A] else [0x20])"
    | (miss) "sep = (if del then [0x20] else [0x2A])"
    by (cases del) auto
  then show ?case
  proof cases
    case stop
    with loop_end [OF rf stop, of w t del True] loop_end [OF rg stop, of w t del False]
      less.prems(1) show ?thesis
      by simp
  next
    case invalid
    with loop_invalid [OF rf invalid, of w t del True] less.prems(1) show ?thesis
      by simp
  next
    case hit
    then have ne: "remaining f \<noteq> []" using sep by (auto split: if_splits)
    from loop_decode [OF rf hit, of w t] less.prems(1)
    obtain r f2 items where rr: "read_record w t f1 = Inr (r, f2)"
      and it: "iter_records_loop w t del True f2 = (items, Returned)"
      and recs: "recs = Some r # items"
      by (auto split: sum.splits prod.splits)
    from read_record_remaining [OF rr] f1
    have rem2: "remaining f2 = drop ?n (drop 1 (remaining f))" by simp
    with ne have lt: "length (remaining f2) < length (remaining f)" by (cases "remaining f") auto
    from rem2 rem1 f1 have "remaining (skip_record t g1) = remaining f2"
      by (simp add: skip_record_remaining)
    from less.hyps [OF lt it this] loop_count [OF rg hit, of w t] recs show ?thesis
      by simp
  next
    case miss
    then have ne: "remaining f \<noteq> []" using sep by (auto split: if_splits)
    from loop_pass [OF rf miss, of w t True] less.prems(1)
    have it: "iter_records_loop w t del True (skip_record t f1) = (recs, Returned)"
      by simp
    from ne f1 have lt: "length (remaining (skip_record t f1)) < length (remaining f)"
      by (cases "remaining f") (auto simp: skip_record_remaining)
    from rem1 have "remaining (skip_record t g1) = remaining (skip_record t f1)"
      by (simp add: skip_record_remaining)
    from less.hyps [OF lt it this] loop_pass [OF rg miss, of w t False] show ?thesis
      by simp
  qed
qed

lemma decode_counts_markers:
  "iter_records_loop w t del True f = (recs, Returned) \<Longrightarrow>
     length recs =
       count_list (record_area_markers (Suc (sum_list (map flength (dbf_fields t)))) (remaining f))
         (if del then 0x2A else 0x20)"
proof (induction "length (remaining f)" arbitrary: f recs rule: less_induct)
  case less
  let ?n = "sum_list (map flength (dbf_fields t))"
  obtain sep f1 where rf: "file_read f 1 = (sep, f1)"
    by (cases "file_read f 1")
  from file_read_remaining [OF rf]
  have sep: "sep = take 1 (remaining f)" and f1: "remaining f1 = drop 1 (remaining f)"
    by simp_all
  consider (stop) "sep = [] \<or> sep = [0x1A]"
    | (invalid) "sep \<noteq> []" "sep \<noteq> [0x1A]" "sep \<noteq> [0x20]" "sep \<noteq> [0x2A]"
    | (hit) "sep = (if del then [0x2A] else [0x20])"
    | (miss) "sep = (if del then [0x20] else [0x2A])"
    by (cases del) auto
  then show ?case
  proof cases
    case stop
    with loop_end [OF rf stop, of w t del True] less.prems sep show ?thesis
      by (cases "remaining f") auto
  next
    case invalid
    with loop_invalid [OF rf invalid, of w t del True] less.prems show ?thesis
      by simp
  next
    case hit
    then obtain m rest where rem: "remaining f = m # rest" and m: "m = (if del then 0x2A else 0x20)"
      using sep by (cases "remaining f") (auto split: if_splits)
    from loop_decode [OF rf hit, of w t] less.prems
    obtain r f2 items where rr: "read_record w t f1 = Inr (r, f2)"
      and it: "iter_records_loop w t del True f2 = (items, Returned)"
      and recs: "recs = Some r # items"
      by (auto split: sum.splits prod.splits)
    from read_record_remaining [OF rr] f1 rem
    have rem2: "remaining f2 = drop ?n rest" by simp
    with rem have lt: "length (remaining f2) < length (remaining f)" by simp
    from less.hyps [OF lt it] rem rem2 recs m show ?thesis
      by simp
  next
    case miss
    then obtain m rest where rem: "remaining f = m # rest" and m: "m = (if del then 0x20 else 0x2A)"
      using sep by (cases "remaining f") (auto split: if_splits)
    from loop_pass [OF rf miss, of w t True] less.prems
    have it: "iter_records_loop w t del True (skip_record t f1) = (recs, Returned)"
      by simp
    from f1 rem have rem2: "remaining (skip_record t f1) = drop ?n rest"
      by (simp add: skip_record_remaining)
    with rem have lt: "length (remaining (skip_record t f1)) < length (remaining f)" by simp
    from less.hyps [OF lt it] rem rem2 m show ?thesis
      by simp
  qed
qed

text \<open>
  The traversal reads the table's file name, header, fields, raw flag, field parser, memo
  file, encoding and record factory, and nothing of its lifecycle.
\<close>

lemma field_value_cong:
  assumes "raw t' = raw t" "the_field_parser t' = the_field_parser t"
    "memofile t' = memofile t" "encoding t' = encoding t"
  shows "field_value w t' field v0 = field_value w t field v0"
  unfolding field_value_def assms ..

lemma read_items_cong:
  assumes "raw t' = raw t" "the_field_parser t' = the_field_parser t"
    "memofile t' = memofile t" "encoding t' = encoding t"
  shows "read_items w t' fs f = read_items w t fs f"
  by (induction fs arbitrary: f)
     (simp_all add: field_value_cong [OF assms] cong: sum.case_cong prod.case_cong)

lemma iter_records_loop_cong:
  assumes "raw t' = raw t" "the_field_parser t' = the_field_parser t"
    "memofile t' = memofile t" "encoding t' = encoding t"
    "dbf_fields t' = dbf_fields t" "recfactory t' = recfactory t"
  shows "iter_records_loop w t' del rd f = iter_records_loop w t del rd f"
proof (induction "length (remaining f)" arbitrary: f rule: less_induct)
  case less
  obtain sep f1 where rf: "file_read f 1 = (sep, f1)"
    by (cases "file_read f 1")
  from file_read_remaining [OF rf]
  have sep: "sep = take 1 (remaining f)" and f1: "remaining f1 = drop 1 (remaining f)"
    by simp_all
  have rr: "read_record w t' g = read_record w t g" for g
    unfolding read_record_def read_items_cong [OF assms(1-4)] assms(5,6) ..
  have sk: "skip_record t' g = skip_record t g" for g
    by (simp add: skip_record_def assms(5))
  have ih_skip: "iter_records_loop w t' del rd (skip_record t f1)
                 = iter_records_loop w t del rd (skip_record t f1)" if "sep \<noteq> []"
  proof -
    from that sep f1 have "length (remaining (skip_record t f1)) < length (remaining f)"
      by (cases "remaining f") (auto simp: skip_record_remaining)
    then show ?thesis by (rule less.hyps)
  qed
  have ih_read: "iter_records_loop w t' del rd f2 = iter_records_loop w t del rd f2"
    if "sep \<noteq> []" "read_record w t f1 = Inr (r, f2)" for r f2
  proof -
    from read_record_remaining [OF that(2)] that(1) sep f1
    have "length (remaining f2) < length (remaining f)"
      by (cases "remaining f") auto
    then show ?thesis by (rule less.hyps)
  qed
  consider (stop) "sep = [] \<or> sep = [0x1A]"
    | (invalid) "sep \<noteq> []" "sep \<noteq> [0x1A]" "sep \<noteq> [0x20]" "sep \<noteq> [0x2A]"
    | (hit) "sep = (if del then [0x2A] else [0x20])"
    | (miss) "sep = (if del then [0x20] else [0x2A])"
    by (cases del) auto
  then show ?case
  proof cases
    case stop
    from loop_end [OF rf stop, of w t' del rd] loop_end [OF rf stop, of w t del rd]
    show ?thesis by simp
  next
    case invalid
    from loop_invalid [OF rf invalid, of w t' del rd] loop_invalid [OF rf invalid, of w t del rd]
    show ?thesis by simp
  next
    case hit
    then have ne: "sep \<noteq> []" by (simp split: if_splits)
    show ?thesis
    proof (cases rd)
      case True
      show ?thesis
      proof (cases "read_record w t f1")
        case (Inl e)
        with loop_decode [OF rf hit, of w t'] loop_decode [OF rf hit, of w t] True rr
        show ?thesis by simp
      next
        case (Inr p)
        obtain r f2 where p: "p = (r, f2)" by (cases p)
        with Inr have "read_record w t f1 = Inr (r, f2)" by simp
        with loop_decode [OF rf hit, of w t'] loop_decode [OF rf hit, of w t] True rr
          ih_read [OF ne this]
        show ?thesis by simp
      qed
    next
      case False
      with loop_count [OF rf hit, of w t'] loop_count [OF rf hit, of w t] sk ih_skip [OF ne]
      show ?thesis by simp
    qed
  next
    case miss
    then have ne: "sep \<noteq> []" by (simp split: if_splits)
    with loop_pass [OF rf miss, of w t' rd] loop_pass [OF rf miss, of w t rd] sk ih_skip [OF ne]
    show ?thesis by simp
  qed
qed

lemma iter_records_cong:
  assumes "raw t' = raw t" "the_field_parser t' = the_field_parser t"
    "memofile t' = memofile t" "encoding t' = encoding t"
    "dbf_fields t' = dbf_fields t" "recfactory t' = recfactory t"
    "filename t' = filename t" "header t' = header t"
  shows "iter_records w t' del rd = iter_records w t del rd"
  unfolding iter_records_def assms(7,8) iter_records_loop_cong [OF assms(1-6)] ..

lemma run_to_list_Inr: "run_to_list g = Inr rs \<Longrightarrow> g = (rs, Returned)"
  by (cases g) (auto simp: run_to_list_def split: outcome.splits)

lemma list_of_RecordIterator_Inr:
  "list_of_RecordIterator w t del = Inr rs \<Longrightarrow> RecordIterator_iter w t del = (rs, Returned)"
  by (auto simp: list_of_RecordIterator_def split: sum.splits if_splits dest: run_to_list_Inr)

text \<open>A descriptor read with one byte prepended takes the next 31 bytes.\<close>

lemma DBFField_read_prepend:
  "DBFField_read f1 [b] =
     (if 31 \<le> length (remaining f1)
      then Inr (DBFField_unpack (b # take 31 (remaining f1)), f1\<lparr>pos := pos f1 + 31\<rparr>)
      else Inl StructError)"
  by (auto simp: DBFField_read_def struct_read_def file_read_def Let_def remaining_def min_def)

text \<open>
  One step of the loop over the field headers, for every byte read and both kinds of
  plain literal. Where a plain literal is not a byte string, the empty read is followed
  by a descriptor read, which fails as nothing is left, and 0x0A starts a descriptor.
\<close>

lemma field_headers_step:
  assumes "file_read f 1 = (sep, f1)"
  shows "sep = take 1 (remaining f) \<and> remaining f1 = drop 1 (remaining f)
    \<and> (sep = [0x0D] \<longrightarrow> read_field_headers w t f = Inr (t, f1))
    \<and> (str_is_bytes w \<and> (sep = [0x0A] \<or> sep = []) \<longrightarrow> read_field_headers w t f = Inr (t, f1))
    \<and> (\<not> str_is_bytes w \<and> sep = [] \<longrightarrow> read_field_headers w t f = Inl StructError)
    \<and> (\<forall>b. sep = [b] \<and> b \<noteq> 0x0D \<and> (b = 0x0A \<longrightarrow> \<not> str_is_bytes w) \<longrightarrow>
          read_field_headers w t f =
            (case DBFField_read f1 [b] of
               Inl e \<Rightarrow> Inl e
             | Inr (fh, f2) \<Rightarrow>
                 (case add_field_header w t fh of
                    Inl e \<Rightarrow> Inl e
                  | Inr t' \<Rightarrow> read_field_headers w t' f2))
          \<and> DBFField_read f1 [b] =
            (if 31 \<le> length (remaining f1)
             then Inr (DBFField_unpack (b # take 31 (remaining f1)), f1\<lparr>pos := pos f1 + 31\<rparr>)
             else Inl StructError))"
proof -
  note r = file_read_remaining [OF assms]
  have a: "read_field_headers w t f = Inr (t, f1)" if "sep = [0x0D]"
    using that assms by (subst read_field_headers.simps) (simp add: end_of_field_headers_def)
  have b: "read_field_headers w t f = Inr (t, f1)" if "str_is_bytes w \<and> (sep = [0x0A] \<or> sep = [])"
    using that assms by (subst read_field_headers.simps) (auto simp: end_of_field_headers_def)
  have c: "read_field_headers w t f =
            (case DBFField_read f1 [b] of
               Inl e \<Rightarrow> Inl e
             | Inr (fh, f2) \<Rightarrow>
                 (case add_field_header w t fh of
                    Inl e \<Rightarrow> Inl e
                  | Inr t' \<Rightarrow> read_field_headers w t' f2))"
    if "sep = [b] \<and> b \<noteq> 0x0D \<and> (b = 0x0A \<longrightarrow> \<not> str_is_bytes w)" for b
    using that assms by (subst read_field_headers.simps) (auto simp: end_of_field_headers_def)
  have d: "read_field_headers w t f = Inl StructError" if "\<not> str_is_bytes w \<and> sep = []"
  proof -
    from that r have "remaining f1 = []" by simp
    then have "DBFField_read f1 [] = Inl StructError"
      by (simp add: DBFField_read_def struct_read_def file_read_def Let_def remaining_def)
    with that assms show ?thesis
      by (subst read_field_headers.simps) (simp add: end_of_field_headers_def)
  qed
  from r a b c d show ?thesis
    by (simp add: DBFField_read_prepend)
qed





text \<open>Reading the headers leaves the file name and the raw flag as they are.\<close>

lemma add_field_header_frame:
  "add_field_header w t fh = Inr t' \<Longrightarrow> filename t' = filename t \<and> raw t' = raw t"
  by (auto simp: add_field_header_def Let_def split: sum.splits)

lemma read_field_headers_frame:
  "read_field_headers w t f = Inr (t', f') \<Longrightarrow> filename t' = filename t \<and> raw t' = raw t"
proof (induction w t f rule: read_field_headers.induct)
  case (1 w t f)
  obtain sep f1 where rf: "file_read f 1 = (sep, f1)"
    by (cases "file_read f 1")
  show ?case
  proof (cases "end_of_field_headers w sep")
    case True
    with "1.prems" rf show ?thesis
      by (simp add: read_field_headers.simps [of w t f])
  next
    case False
    with "1.prems" rf obtain fh f2 t1 where fr: "DBFField_read f1 sep = Inr (fh, f2)"
      and ad: "add_field_header w t fh = Inr t1"
      and rec: "read_field_headers w t1 f2 = Inr (t', f')"
      by (auto simp: read_field_headers.simps [of w t f] split: sum.splits prod.splits)
    from "1.IH" [OF rf [symmetric] False fr refl ad rec] add_field_header_frame [OF ad]
    show ?thesis by simp
  qed
qed

lemma resolve_encoding_frame:
  "resolve_encoding w t h = Inr t' \<Longrightarrow> filename t' = filename t \<and> raw t' = raw t"
  by (auto simp: resolve_encoding_def split: if_splits sum.splits)

text \<open>Raw mode: every field value is the bytes read, whatever the parser and memo file.\<close>

lemma field_value_raw: "raw t \<Longrightarrow> field_value w t field v0 = Inr (PyBytes v0)"
  by (simp add: field_value_def)

lemma read_items_raw_indep:
  "raw t \<Longrightarrow> raw t' \<Longrightarrow> read_items w' t' fs f = read_items w t fs f"
  by (induction fs arbitrary: f) (simp_all add: field_value_raw cong: prod.case_cong)

lemma read_items_raw:
  "raw t \<Longrightarrow> \<exists>f'. read_items w t fs f = Inr (raw_items fs (remaining f), f')"
proof (induction fs arbitrary: f)
  case Nil
  then show ?case by simp
next
  case (Cons field rest)
  obtain v0 f1 where r: "file_read f (flength field) = (v0, f1)"
    by (cases "file_read f (flength field)")
  from Cons.IH [OF Cons.prems, of f1] obtain f' where
    "read_items w t rest f1 = Inr (raw_items rest (remaining f1), f')"
    by blast
  with r file_read_remaining [OF r] Cons.prems show ?case
    by (simp add: field_value_def)
qed

lemma raw_items_nth:
  "i < length fs \<Longrightarrow>
     raw_items fs bs ! i =
       (name (fs ! i), PyBytes (slice (sum_list (map flength (take i fs))) (flength (fs ! i)) bs))"
proof (induction fs arbitrary: i bs)
  case Nil
  then show ?case by simp
next
  case (Cons field rest)
  show ?case
  proof (cases i)
    case 0
    then show ?thesis by (simp add: slice_def)
  next
    case (Suc j)
    with Cons.prems have "j < length rest" by simp
    from Cons.IH [OF this, of "drop (flength field) bs"] Suc show ?thesis
      by (simp add: slice_def add.commute)
  qed
qed

text \<open>
  Construction in raw mode leaves the memo file unset, and construction fails where a
  memo field has no memo file.
\<close>

lemma check_for_memo_file_frame:
  "check_for_memo_file w t = Inr t' \<Longrightarrow> filename t' = filename t \<and> raw t' = raw t"
  by (auto simp: check_for_memo_file_def Let_def split: if_splits option.splits)

lemma read_headers_frame:
  assumes "read_headers w t f = Inr t'"
  shows "filename t' = filename t \<and> raw t' = raw t"
proof -
  from assms obtain h f1 t1 t2 f2 where "resolve_encoding w (t\<lparr>header := Some h\<rparr>) h = Inr t1"
    and "read_field_headers w t1 f1 = Inr (t2, f2)" and "check_for_memo_file w t2 = Inr t'"
    by (auto simp: read_headers_def split: sum.splits prod.splits if_splits)
  from resolve_encoding_frame [OF this(1)] read_field_headers_frame [OF this(2)]
    check_for_memo_file_frame [OF this(3)]
  show ?thesis by simp
qed

lemma after_read_headers_raw:
  "after_read_headers w t1 = Inr t4 \<Longrightarrow> raw t4 = raw t1 \<and> (raw t1 \<longrightarrow> memofile t4 = None)"
  by (auto simp: after_read_headers_def Let_def split: sum.splits option.splits if_splits)

lemma after_read_headers_FPT:
  "raw t1 \<Longrightarrow> after_read_headers (w\<lparr>FPT := x\<rparr>) t1 = after_read_headers w t1"
  by (simp add: after_read_headers_def Let_def cong: sum.case_cong option.case_cong)

lemma load_frame:
  "load w t = Inr t' \<Longrightarrow> raw t' = raw t \<and> memofile t' = memofile t"
  by (auto simp: load_def Let_def split: sum.splits)

lemma Table_init_raw:
  assumes "Table_init w fname enc icase lnames pclass rfactory load_arg True = Inr t"
  shows "raw t \<and> memofile t = None"
proof -
  from assms obtain resolved d t1 t4 where
    rh: "read_headers w (initial_table resolved enc icase lnames pclass rfactory True)
           \<lparr>data = d, pos = 0\<rparr> = Inr t1"
    and ar: "after_read_headers w t1 = Inr t4"
    and fin: "(if load_arg then load w t4 else Inr (unload t4)) = Inr t"
    by (auto simp: Table_init_def split: sum.splits option.splits)
  from read_headers_frame [OF rh] have "raw t1" by (simp add: initial_table_def)
  with after_read_headers_raw [OF ar] have 4: "raw t4" "memofile t4 = None" by simp_all
  show ?thesis
  proof (cases load_arg)
    case True
    with fin load_frame [of w t4 t] 4 show ?thesis by simp
  next
    case False
    with fin 4 show ?thesis by (auto simp: unload_def)
  qed
qed

lemma Table_init_missing_memo:
  assumes "resolve_filename w fname icase = Inr resolved" and "files w resolved = Some d"
    and "DBFHeader_read \<lparr>data = d, pos = 0\<rparr> = Inr (h, f1)"
    and "resolve_encoding w
           ((initial_table resolved enc icase lnames pclass rfactory raw_arg)
              \<lparr>header := Some h\<rparr>) h = Inr t1"
    and "read_field_headers w t1 f1 = Inr (t2, f2)"
    and "ustr ''M'' \<in> set (map ftype (dbf_fields t2))"
    and "ifind w resolved (Some ''.fpt'') = None \<or> ifind w resolved (Some ''.fpt'') = Some []"
  shows "Table_init w fname enc icase lnames pclass rfactory load_arg raw_arg
           = Inl (IOError (Missing_memo_file resolved))"
proof -
  from read_field_headers_frame [OF assms(5)] resolve_encoding_frame [OF assms(4)]
  have fn: "filename t2 = resolved"
    by (simp add: initial_table_def)
  from assms(6) have ne: "dbf_fields t2 \<noteq> []" by auto
  from assms(6,7) fn have "check_for_memo_file w t2 = Inl (IOError (Missing_memo_file resolved))"
    by (auto simp: check_for_memo_file_def Let_def)
  with assms(3,4,5) ne
  have "read_headers w (initial_table resolved enc icase lnames pclass rfactory raw_arg)
      \<lparr>data = d, pos = 0\<rparr> = Inl (IOError (Missing_memo_file resolved))"
    by (simp add: read_headers_def)
  with assms(1,2) show ?thesis
    by (simp add: Table_init_def)
qed

text \<open>
  Nothing but the opening of the memo file in \<^verbatim>\<open>__init__\<close> calls \<^verbatim>\<open>FPT\<close>: the headers,
  the traversals and \<^verbatim>\<open>load\<close> are the same whatever \<^verbatim>\<open>FPT\<close> is, and so is the whole
  constructor in raw mode.
\<close>

lemma read_field_headers_FPT:
  "read_field_headers (w\<lparr>FPT := x\<rparr>) t f = read_field_headers w t f"
proof (induction w t f rule: read_field_headers.induct)
  case (1 w t f)
  obtain sep f1 where rf: "file_read f 1 = (sep, f1)"
    by (cases "file_read f 1")
  have ad: "add_field_header (w\<lparr>FPT := x\<rparr>) t fh = add_field_header w t fh" for fh
    by (simp add: add_field_header_def Let_def cong: sum.case_cong if_cong)
  show ?case
  proof (cases "end_of_field_headers w sep")
    case True
    with rf show ?thesis
      by (simp add: read_field_headers.simps [of _ t f] end_of_field_headers_def)
  next
    case False
    show ?thesis
    proof (cases "DBFField_read f1 sep")
      case (Inl e)
      with rf False show ?thesis
        by (simp add: read_field_headers.simps [of _ t f] end_of_field_headers_def)
    next
      case (Inr p)
      obtain fh f2 where p: "p = (fh, f2)" by (cases p)
      show ?thesis
      proof (cases "add_field_header w t fh")
        case (Inl e)
        with rf False Inr p ad show ?thesis
          by (simp add: read_field_headers.simps [of _ t f] end_of_field_headers_def)
      next
        case (Inr t1)
        from "1.IH" [OF rf [symmetric] False \<open>DBFField_read f1 sep = Inr p\<close> p [symmetric] Inr]
        have "read_field_headers (w\<lparr>FPT := x\<rparr>) t1 f2 = read_field_headers w t1 f2" .
        with rf False \<open>DBFField_read f1 sep = Inr p\<close> p ad Inr show ?thesis
          by (auto simp: read_field_headers.simps [of _ t f] end_of_field_headers_def)
      qed
    qed
  qed
qed

lemma read_headers_FPT:
  "read_headers (w\<lparr>FPT := x\<rparr>) t f = read_headers w t f"
  by (simp add: read_headers_def resolve_encoding_def check_for_memo_file_def
      read_field_headers_FPT cong: sum.case_cong prod.case_cong option.case_cong if_cong)

lemma field_value_FPT:
  "field_value (w\<lparr>FPT := x\<rparr>) t field v0 = field_value w t field v0"
  by (simp add: field_value_def
      cong: sum.case_cong option.case_cong pyval.case_cong if_cong)

lemma read_items_FPT:
  "read_items (w\<lparr>FPT := x\<rparr>) t fs f = read_items w t fs f"
  by (induction fs arbitrary: f)
     (simp_all add: field_value_FPT cong: sum.case_cong prod.case_cong)

lemma iter_records_loop_FPT:
  "iter_records_loop (w\<lparr>FPT := x\<rparr>) t del rd f = iter_records_loop w t del rd f"
proof (induction "length (remaining f)" arbitrary: f rule: less_induct)
  case less
  let ?w = "w\<lparr>FPT := x\<rparr>"
  obtain sep f1 where rf: "file_read f 1 = (sep, f1)"
    by (cases "file_read f 1")
  from file_read_remaining [OF rf]
  have sep: "sep = take 1 (remaining f)" and f1: "remaining f1 = drop 1 (remaining f)"
    by simp_all
  have rr: "read_record ?w t g = read_record w t g" for g
    by (simp add: read_record_def read_items_FPT cong: sum.case_cong)
  have ih_skip: "iter_records_loop ?w t del rd (skip_record t f1)
                 = iter_records_loop w t del rd (skip_record t f1)" if "sep \<noteq> []"
  proof -
    from that sep f1 have "length (remaining (skip_record t f1)) < length (remaining f)"
      by (cases "remaining f") (auto simp: skip_record_remaining)
    then show ?thesis by (rule less.hyps)
  qed
  have ih_read: "iter_records_loop ?w t del rd f2 = iter_records_loop w t del rd f2"
    if "sep \<noteq> []" "read_record w t f1 = Inr (r, f2)" for r f2
  proof -
    from read_record_remaining [OF that(2)] that(1) sep f1
    have "length (remaining f2) < length (remaining f)"
      by (cases "remaining f") auto
    then show ?thesis by (rule less.hyps)
  qed
  consider (stop) "sep = [] \<or> sep = [0x1A]"
    | (invalid) "sep \<noteq> []" "sep \<noteq> [0x1A]" "sep \<noteq> [0x20]" "sep \<noteq> [0x2A]"
    | (hit) "sep = (if del then [0x2A] else [0x20])"
    | (miss) "sep = (if del then [0x20] else [0x2A])"
    by (cases del) auto
  then show ?case
  proof cases
    case stop
    from loop_end [OF rf stop, of ?w t del rd] loop_end [OF rf stop, of w t del rd]
    show ?thesis by simp
  next
    case invalid
    from loop_invalid [OF rf invalid, of ?w t del rd] loop_invalid [OF rf invalid, of w t del rd]
    show ?thesis by simp
  next
    case hit
    then have ne: "sep \<noteq> []" by (simp split: if_splits)
    show ?thesis
    proof (cases rd)
      case True
      show ?thesis
      proof (cases "read_record w t f1")
        case (Inl e)
        with loop_decode [OF rf hit, of ?w t] loop_decode [OF rf hit, of w t] True rr
        show ?thesis by simp
      next
        case (Inr p)
        obtain r f2 where p: "p = (r, f2)" by (cases p)
        with Inr have "read_record w t f1 = Inr (r, f2)" by simp
        with loop_decode [OF rf hit, of ?w t] loop_decode [OF rf hit, of w t] True rr
          ih_read [OF ne this]
        show ?thesis by simp
      qed
    next
      case False
      with loop_count [OF rf hit, of ?w t] loop_count [OF rf hit, of w t] ih_skip [OF ne]
      show ?thesis by simp
    qed
  next
    case miss
    then have ne: "sep \<noteq> []" by (simp split: if_splits)
    with loop_pass [OF rf miss, of ?w t rd] loop_pass [OF rf miss, of w t rd] ih_skip [OF ne]
    show ?thesis by simp
  qed
qed

lemma iter_records_FPT:
  "iter_records (w\<lparr>FPT := x\<rparr>) t del rd = iter_records w t del rd"
  by (simp add: iter_records_def iter_records_loop_FPT cong: option.case_cong)

lemma load_FPT: "load (w\<lparr>FPT := x\<rparr>) t = load w t"
  by (simp add: load_def list_of_RecordIterator_def RecordIterator_len_def
      RecordIterator_iter_def iter_records_FPT cong: sum.case_cong if_cong)

lemma Table_init_FPT:
  "Table_init (w\<lparr>FPT := x\<rparr>) fname enc icase lnames pclass rfactory load_arg True
     = Table_init w fname enc icase lnames pclass rfactory load_arg True"
proof -
  have a: "after_read_headers (w\<lparr>FPT := x\<rparr>) t1 = after_read_headers w t1"
    if "read_headers w (initial_table resolved enc icase lnames pclass rfactory True)
          \<lparr>data = d, pos = 0\<rparr> = Inr t1" for resolved d t1
  proof -
    from read_headers_frame [OF that] have "raw t1" by (simp add: initial_table_def)
    then show ?thesis by (rule after_read_headers_FPT)
  qed
  show ?thesis
    by (auto simp: Table_init_def resolve_filename_def read_headers_FPT load_FPT a
        split: sum.splits option.splits)
qed

text \<open>Unfolding the definitions on the concrete inputs.\<close>

lemma ustr_simps: "ustr [] = []" "ustr (c # cs) = of_char c # ustr cs"
  by (simp_all add: ustr_def)

lemmas demo_defs = demo_header_bytes_def demo_descriptor_def demo_dbf_def demo_files_def
  demo_bad_dbf_def demo_empty_dbf_def demo_memo_dbf_def
  demo_world_def demo_parser_def demo_memofile_def demo_table_def demo_field_def
  demo_header_def

lemmas open_defs = Table_init_def resolve_filename_def initial_table_def
  read_headers_def DBFHeader_read_def struct_read_def file_read_def DBFHeader_unpack_def
  slice_def resolve_encoding_def end_of_field_headers_def DBFField_read_def
  DBFField_unpack_def add_field_header_def replace_name_type_def check_for_memo_file_def
  after_read_headers_def check_headers_def check_field_def datetime_date_def expand_year_def
  days_in_month_def is_leap_def unload_def Let_def

lemmas traversal_defs = iter_records_def seek_set_def seek_cur_def skip_record_def
  read_record_def field_value_def file_read_def RecordIterator_iter_def
  RecordIterator_len_def run_to_list_def list_of_RecordIterator_def load_def unload_def
  iter_source_def len_source_def Table_iter_def Table_len_def Let_def

lemma demo_decode:
  "RecordIterator_iter (demo_world False demo_files)
      ((demo_table False [demo_field ''A'' ''C'' 2])\<lparr>header := Some demo_header\<rparr>) False
     = ([Some [(ustr ''A'', PyBytes [0x61, 0x62])], Some [(ustr ''A'', PyBytes [0x65, 0x66])]],
        Returned)"
  by (simp add: traversal_defs demo_defs initial_table_def DBFHeader_unpack_def slice_def
      iter_records_loop.simps ustr_simps)

section \<open>Properties\<close>

subsection \<open>The record markers (C1)\<close>

text \<open>
  C1. Each step of the traversal reads exactly one byte at the current position, the
  record boundary, and classifies it. An empty read (the end of the stream) or 0x1A ends
  the iteration. 0x20 is an active record: a traversal of the active records decodes it
  (or skips it and yields) and goes on behind it, a traversal of the deleted records skips
  it. 0x2A is a deleted record, with the two roles exchanged. Any other byte raises the
  invalid record separator error at once: the result has no further item and does not
  depend on anything behind the marker, as nothing more is read.
\<close>

theorem iter_records_marker_step:
  assumes "file_read infile 1 = (sep, f1)"
  shows "sep = take 1 (drop (pos infile) (data infile))
     \<and> f1 = infile\<lparr>pos := pos infile + length sep\<rparr>
     \<and> (sep = [] \<or> sep = [0x1A] \<longrightarrow> iter_records_loop w t del rd infile = ([], Returned))
     \<and> (sep = [0x20] \<longrightarrow>
          iter_records_loop w t False True infile =
            (case read_record w t f1 of
               Inl e \<Rightarrow> ([], Raised e)
             | Inr (r, f2) \<Rightarrow>
                 (case iter_records_loop w t False True f2 of
                    (items, out) \<Rightarrow> (Some r # items, out)))
        \<and> iter_records_loop w t False False infile =
            (case iter_records_loop w t False False (skip_record t f1) of
               (items, out) \<Rightarrow> (None # items, out))
        \<and> iter_records_loop w t True rd infile =
            iter_records_loop w t True rd (skip_record t f1))
     \<and> (sep = [0x2A] \<longrightarrow>
          iter_records_loop w t True True infile =
            (case read_record w t f1 of
               Inl e \<Rightarrow> ([], Raised e)
             | Inr (r, f2) \<Rightarrow>
                 (case iter_records_loop w t True True f2 of
                    (items, out) \<Rightarrow> (Some r # items, out)))
        \<and> iter_records_loop w t True False infile =
            (case iter_records_loop w t True False (skip_record t f1) of
               (items, out) \<Rightarrow> (None # items, out))
        \<and> iter_records_loop w t False rd infile =
            iter_records_loop w t False rd (skip_record t f1))
     \<and> (sep \<noteq> [] \<and> sep \<noteq> [0x1A] \<and> sep \<noteq> [0x20] \<and> sep \<noteq> [0x2A] \<longrightarrow>
          iter_records_loop w t del rd infile =
            ([], Raised (IOError (Invalid_record_separator sep))))"
proof -
  have a: "sep = take 1 (drop (pos infile) (data infile))"
    and b: "f1 = infile\<lparr>pos := pos infile + length sep\<rparr>"
    using assms by (auto simp: file_read_def Let_def)
  have c: "iter_records_loop w t del rd infile = ([], Returned)" if "sep = [] \<or> sep = [0x1A]" for del rd
    using that assms by (subst iter_records_loop.simps) auto
  have d: "iter_records_loop w t del rd infile = ([], Raised (IOError (Invalid_record_separator sep)))"
    if "sep \<noteq> [] \<and> sep \<noteq> [0x1A] \<and> sep \<noteq> [0x20] \<and> sep \<noteq> [0x2A]" for del rd
    using that assms by (subst iter_records_loop.simps) auto
  have e: "sep = [0x20] \<longrightarrow>
          iter_records_loop w t False True infile =
            (case read_record w t f1 of
               Inl e \<Rightarrow> ([], Raised e)
             | Inr (r, f2) \<Rightarrow>
                 (case iter_records_loop w t False True f2 of
                    (items, out) \<Rightarrow> (Some r # items, out)))
        \<and> iter_records_loop w t False False infile =
            (case iter_records_loop w t False False (skip_record t f1) of
               (items, out) \<Rightarrow> (None # items, out))
        \<and> iter_records_loop w t True rd infile =
            iter_records_loop w t True rd (skip_record t f1)"
    using assms
    by (auto simp: iter_records_loop.simps [of w t False True infile]
        iter_records_loop.simps [of w t False False infile]
        iter_records_loop.simps [of w t True rd infile])
  have f: "sep = [0x2A] \<longrightarrow>
          iter_records_loop w t True True infile =
            (case read_record w t f1 of
               Inl e \<Rightarrow> ([], Raised e)
             | Inr (r, f2) \<Rightarrow>
                 (case iter_records_loop w t True True f2 of
                    (items, out) \<Rightarrow> (Some r # items, out)))
        \<and> iter_records_loop w t True False infile =
            (case iter_records_loop w t True False (skip_record t f1) of
               (items, out) \<Rightarrow> (None # items, out))
        \<and> iter_records_loop w t False rd infile =
            iter_records_loop w t False rd (skip_record t f1)"
    using assms
    by (auto simp: iter_records_loop.simps [of w t True True infile]
        iter_records_loop.simps [of w t True False infile]
        iter_records_loop.simps [of w t False rd infile])
  from a b c d e f show ?thesis by blast
qed

theorem iter_records_marker_step_witness:
  "iter_records_loop (demo_world False Map.empty) (demo_table True [demo_field ''A'' ''C'' 2])
     False False \<lparr>data = [0x20, 0x61, 0x62, 0x2A, 0x63, 0x64, 0x1A, 0x20], pos = 0\<rparr>
     = ([None], Returned)
   \<and> iter_records_loop (demo_world False Map.empty) (demo_table True [demo_field ''A'' ''C'' 2])
     False False \<lparr>data = [0x20, 0x61, 0x62, 0x07, 0x20, 0x61, 0x62], pos = 0\<rparr>
     = ([None], Raised (IOError (Invalid_record_separator [0x07])))"
proof -
  let ?w = "demo_world False Map.empty"
  let ?t = "demo_table True [demo_field ''A'' ''C'' 2]"
  let ?d = "[0x20, 0x61, 0x62, 0x2A, 0x63, 0x64, 0x1A, 0x20] :: bytes"
  let ?e = "[0x20, 0x61, 0x62, 0x07, 0x20, 0x61, 0x62] :: bytes"
  have sk: "skip_record ?t \<lparr>data = ?d, pos = Suc 0\<rparr> = \<lparr>data = ?d, pos = 3\<rparr>"
    "skip_record ?t \<lparr>data = ?d, pos = 4\<rparr> = \<lparr>data = ?d, pos = 6\<rparr>"
    "skip_record ?t \<lparr>data = ?e, pos = Suc 0\<rparr> = \<lparr>data = ?e, pos = 3\<rparr>"
    by (simp_all add: skip_record_def seek_cur_def demo_table_def demo_field_def
        initial_table_def)
  have r0: "file_read \<lparr>data = ?d, pos = 0\<rparr> 1 = ([0x20], \<lparr>data = ?d, pos = 1\<rparr>)"
    and r3: "file_read \<lparr>data = ?d, pos = 3\<rparr> 1 = ([0x2A], \<lparr>data = ?d, pos = 4\<rparr>)"
    and r6: "file_read \<lparr>data = ?d, pos = 6\<rparr> 1 = ([0x1A], \<lparr>data = ?d, pos = 7\<rparr>)"
    and e0: "file_read \<lparr>data = ?e, pos = 0\<rparr> 1 = ([0x20], \<lparr>data = ?e, pos = 1\<rparr>)"
    and e3: "file_read \<lparr>data = ?e, pos = 3\<rparr> 1 = ([0x07], \<lparr>data = ?e, pos = 4\<rparr>)"
    by (simp_all add: file_read_def Let_def)
  note s0 = iter_records_marker_step [OF r0, of ?w ?t False False]
    and s3 = iter_records_marker_step [OF r3, of ?w ?t False False]
    and s6 = iter_records_marker_step [OF r6, of ?w ?t False False]
    and t0 = iter_records_marker_step [OF e0, of ?w ?t False False]
    and t3 = iter_records_marker_step [OF e3, of ?w ?t False False]
  from s6 have "iter_records_loop ?w ?t False False \<lparr>data = ?d, pos = 6\<rparr> = ([], Returned)"
    by simp
  with s3 have "iter_records_loop ?w ?t False False \<lparr>data = ?d, pos = 3\<rparr> = ([], Returned)"
    by (simp add: sk)
  with s0 have 1: "iter_records_loop ?w ?t False False \<lparr>data = ?d, pos = 0\<rparr> = ([None], Returned)"
    by (simp add: sk)
  from t3 have "iter_records_loop ?w ?t False False \<lparr>data = ?e, pos = 3\<rparr>
      = ([], Raised (IOError (Invalid_record_separator [0x07])))"
    by simp
  with t0 have 2: "iter_records_loop ?w ?t False False \<lparr>data = ?e, pos = 0\<rparr>
      = ([None], Raised (IOError (Invalid_record_separator [0x07])))"
    by (simp add: sk)
  from 1 2 show ?thesis by simp
qed

subsection \<open>Loaded and unloaded iteration (C2)\<close>

text \<open>
  C2. For a valid table, one that \<^verbatim>\<open>load()\<close> materializes without an exception,
  iterating the unloaded table yields the same records in the same order as iterating the
  loaded table, for the active records (iterating the table) and for the deleted ones
  (iterating \<^verbatim>\<open>table.deleted\<close>); both iterations end by returning. The same holds for
  the table unloaded again after the load.
\<close>

theorem loaded_equals_unloaded:
  assumes "load w t = Inr t'"
  shows "Table_iter w (unload t) = Table_iter w t'
    \<and> iter_source w (unload t) (deleted (unload t)) = iter_source w t' (deleted t')
    \<and> Table_iter w (unload t') = Table_iter w t'
    \<and> iter_source w (unload t') (deleted (unload t')) = iter_source w t' (deleted t')
    \<and> snd (Table_iter w t') = Returned \<and> snd (iter_source w t' (deleted t')) = Returned"
proof -
  from assms obtain rs ds where rs: "list_of_RecordIterator w t False = Inr rs"
    and ds: "list_of_RecordIterator w (t\<lparr>records := Some (Materialized rs)\<rparr>) True = Inr ds"
    and t': "t' = t\<lparr>records := Some (Materialized rs), deleted := Materialized ds,
                    loaded := Some True\<rparr>"
    by (auto simp: load_def Let_def split: sum.splits)
  have a: "RecordIterator_iter w t False = (rs, Returned)"
    using rs by (rule list_of_RecordIterator_Inr)
  have b1: "RecordIterator_iter w (t\<lparr>records := Some (Materialized rs)\<rparr>) True = (ds, Returned)"
    using ds by (rule list_of_RecordIterator_Inr)
  have "iter_records w (t\<lparr>records := Some (Materialized rs)\<rparr>) True True
        = iter_records w t True True"
    by (rule iter_records_cong) simp_all
  with b1 have b: "RecordIterator_iter w t True = (ds, Returned)"
    by (simp add: RecordIterator_iter_def)
  have "iter_records w (unload t) del True = iter_records w t del True" for del
    by (rule iter_records_cong) (simp_all add: unload_def)
  then have u: "RecordIterator_iter w (unload t) del = RecordIterator_iter w t del" for del
    by (simp add: RecordIterator_iter_def)
  have "iter_records w (unload t') del True = iter_records w t del True" for del
    by (rule iter_records_cong) (simp_all add: unload_def t')
  then have u': "RecordIterator_iter w (unload t') del = RecordIterator_iter w t del" for del
    by (simp add: RecordIterator_iter_def)
  have l: "Table_iter w t' = (rs, Returned)" "iter_source w t' (deleted t') = (ds, Returned)"
    by (simp_all add: Table_iter_def iter_source_def t')
  have r: "records (unload x) = Some (RecordIterator False)"
    "deleted (unload x) = RecordIterator True" for x :: "('a, 'b) table"
    by (simp_all add: unload_def)
  have "Table_iter w (unload t) = (rs, Returned)"
    "iter_source w (unload t) (deleted (unload t)) = (ds, Returned)"
    "Table_iter w (unload t') = (rs, Returned)"
    "iter_source w (unload t') (deleted (unload t')) = (ds, Returned)"
    by (simp_all only: Table_iter_def iter_source_def r option.case record_source.case
        u u' a b)
  with l show ?thesis by simp
qed

theorem loaded_equals_unloaded_witness:
  "(\<exists>t'. load (demo_world False demo_files)
           ((demo_table False [demo_field ''A'' ''C'' 2])\<lparr>header := Some demo_header\<rparr>)
         = Inr t')
   \<and> Table_iter (demo_world False demo_files)
        (unload ((demo_table False [demo_field ''A'' ''C'' 2])\<lparr>header := Some demo_header\<rparr>))
       = ([Some [(ustr ''A'', PyBytes [0x61, 0x62])], Some [(ustr ''A'', PyBytes [0x65, 0x66])]],
          Returned)
   \<and> iter_source (demo_world False demo_files)
        (unload ((demo_table False [demo_field ''A'' ''C'' 2])\<lparr>header := Some demo_header\<rparr>))
        (deleted
          (unload ((demo_table False [demo_field ''A'' ''C'' 2])\<lparr>header := Some demo_header\<rparr>)))
       = ([Some [(ustr ''A'', PyBytes [0x63, 0x64])]], Returned)"
proof -
  let ?w = "demo_world False demo_files"
  let ?t = "(demo_table False [demo_field ''A'' ''C'' 2])\<lparr>header := Some demo_header\<rparr>"
  let ?rs = "[Some [(ustr ''A'', PyBytes [0x61, 0x62])], Some [(ustr ''A'', PyBytes [0x65, 0x66])]]"
  let ?ds = "[Some [(ustr ''A'', PyBytes [0x63, 0x64 :: byte] :: nat pyval)]]"
  let ?t' = "?t\<lparr>records := Some (Materialized ?rs), deleted := Materialized ?ds,
                loaded := Some True\<rparr>"
  have l: "load ?w ?t = Inr ?t'"
    by (simp add: traversal_defs demo_defs initial_table_def DBFHeader_unpack_def slice_def
        iter_records_loop.simps ustr_simps)
  have m: "Table_iter ?w ?t' = (?rs, Returned)" "iter_source ?w ?t' (deleted ?t') = (?ds, Returned)"
    by (simp_all add: Table_iter_def iter_source_def)
  from loaded_equals_unloaded [OF l] m l show ?thesis
    by simp
qed

subsection \<open>Counting the active records (C3)\<close>

text \<open>
  C3. For a valid table (the file is there, the header's record length is one marker
  byte plus the field lengths, and the full decode traversal of the active records ends
  without an exception) the length of the lazy record iterator, computed by the traversal
  that only skips, equals the number of records the decode traversal produces, and both
  equal the number of marker bytes of the record area that are 0x20. The length of the
  unloaded table is that length.
\<close>

theorem active_count_three_ways:
  assumes "files w (filename t) = Some d" and "header t = Some h"
    and "recordlen h = Suc (sum_list (map flength (dbf_fields t)))"
    and "RecordIterator_iter w t False = (recs, Returned)"
  shows "RecordIterator_len w t False = Inr (length recs)
    \<and> Table_len w (unload t) = Inr (length recs)
    \<and> length recs = count_list (record_area_markers (recordlen h) (drop (headerlen h) d)) 0x20"
proof -
  let ?f = "seek_set \<lparr>data = d, pos = 0\<rparr> (headerlen h)"
  from assms(1,2,4) have dec: "iter_records_loop w t False True ?f = (recs, Returned)"
    by (simp add: RecordIterator_iter_def iter_records_def)
  have rem: "remaining ?f = drop (headerlen h) d"
    by (simp add: remaining_def seek_set_def)
  from skip_matches_decode [OF dec refl]
  have "iter_records w t False False = (replicate (length recs) None, Returned)"
    using assms(1,2) by (simp add: iter_records_def)
  then have 1: "RecordIterator_len w t False = Inr (length recs)"
    by (simp add: RecordIterator_len_def)
  from decode_counts_markers [OF dec] rem assms(3)
  have 2: "length recs = count_list (record_area_markers (recordlen h) (drop (headerlen h) d)) 0x20"
    by simp
  have "iter_records w (unload t) False False = iter_records w t False False"
    by (rule iter_records_cong) (simp_all add: unload_def)
  with 1 have 3: "Table_len w (unload t) = Inr (length recs)"
    by (simp add: Table_len_def len_source_def RecordIterator_len_def unload_def)
  from 1 2 3 show ?thesis by simp
qed

theorem active_count_three_ways_witness:
  "files (demo_world False demo_files)
      (filename ((demo_table False [demo_field ''A'' ''C'' 2])\<lparr>header := Some demo_header\<rparr>))
     = Some demo_dbf
   \<and> recordlen demo_header = Suc (sum_list (map flength [demo_field ''A'' ''C'' 2]))
   \<and> RecordIterator_len (demo_world False demo_files)
        ((demo_table False [demo_field ''A'' ''C'' 2])\<lparr>header := Some demo_header\<rparr>) False
       = Inr 2
   \<and> count_list (record_area_markers 3 (drop 65 demo_dbf)) 0x20 = 2"
proof -
  let ?w = "demo_world False demo_files"
  let ?t = "(demo_table False [demo_field ''A'' ''C'' 2])\<lparr>header := Some demo_header\<rparr>"
  have 1: "files ?w (filename ?t) = Some demo_dbf"
    by (simp add: demo_defs initial_table_def)
  have 2: "header ?t = Some demo_header"
    by simp
  have 3: "recordlen demo_header = Suc (sum_list (map flength (dbf_fields ?t)))"
    by (simp add: demo_defs initial_table_def DBFHeader_unpack_def slice_def)
  have 4: "headerlen demo_header = 65" "recordlen demo_header = 3"
    by (simp_all add: demo_defs DBFHeader_unpack_def slice_def)
  from active_count_three_ways [OF 1 2 3 demo_decode] 1 3 4 show ?thesis
    by (simp add: demo_table_def initial_table_def)
qed

subsection \<open>Century expansion (C4)\<close>

text \<open>
  C4. Century expansion maps a year below 80 to \<open>2000 + year\<close> and a year from 80 on to
  \<open>1900 + year\<close>; year 0 gives 2000, year 79 gives 2079, year 80 gives 1980 and year 99
  gives 1999, so the boundary is exactly at 80. The two equations hold for every integer,
  in particular for every 2-digit year.
\<close>

theorem expand_year_century:
  "expand_year y = (if y < 80 then 2000 + y else 1900 + y)
   \<and> expand_year 0 = 2000 \<and> expand_year 79 = 2079
   \<and> expand_year 80 = 1980 \<and> expand_year 99 = 1999"
  by (simp add: expand_year_def)

subsection \<open>The end of the field headers (C5)\<close>

text \<open>
  C5. At each descriptor boundary exactly one byte is read; 0x0D ends the schema section,
  and so should the exhausted stream, for which the source lists \<^verbatim>\<open>''\<close> beside
  \<^verbatim>\<open>b'\x0d'\<close>; any other byte is the first byte of the next descriptor. On Python 3 the
  code misses the second case: the empty read \<^verbatim>\<open>b''\<close> does not equal the plain literal
  \<^verbatim>\<open>''\<close>, the section does not end, and the descriptor read that follows raises
  \<^verbatim>\<open>struct.error\<close>. So the construction of a table from a file that is its header alone
  raises \<^verbatim>\<open>struct.error\<close>, where Python 2, whose plain literals are byte strings, ends
  the section and reaches the error for a schema without fields; and reading the field
  headers of a file that ends right after a descriptor raises, where Python 2 ends the section
  with the field read. The rest is as the claim says, on Python 3: the byte 0x0A starts
  a descriptor (whose name begins with it), and 0x0D ends the section.
\<close>

theorem field_headers_end_of_stream_defect:
  "Table_init (demo_world False (Map.empty(''t.dbf'' \<mapsto> demo_header_bytes 33 1))) ''t.dbf'' None
      True False demo_parser id False False
     = Inl StructError
   \<and> Table_init (demo_world True (Map.empty(''t.dbf'' \<mapsto> demo_header_bytes 33 1))) ''t.dbf'' None
      True False demo_parser id False False
     = Inl (ValueError (Must_have_at_least_one_field ''t.dbf''))
   \<and> read_field_headers (demo_world False demo_files)
        (initial_table ''t.dbf'' (Some ''ascii'') True False demo_parser id False)
        \<lparr>data = demo_descriptor 0x41 0x43 2, pos = 0\<rparr>
     = Inl StructError
   \<and> map_sum id (\<lambda>(t, f). (map name (dbf_fields t), pos f))
        (read_field_headers (demo_world True demo_files)
          (initial_table ''t.dbf'' (Some ''ascii'') True False demo_parser id False)
          \<lparr>data = demo_descriptor 0x41 0x43 2, pos = 0\<rparr>)
     = Inr ([ustr ''A''], 32)
   \<and> map_sum id (\<lambda>(t, f). (map name (dbf_fields t), pos f))
        (read_field_headers (demo_world False demo_files)
          (initial_table ''t.dbf'' (Some ''ascii'') True False demo_parser id False)
          \<lparr>data = demo_descriptor 0x0A 0x43 2 @ [0x0D], pos = 0\<rparr>)
     = Inr ([[10]], 33)
   \<and> map_sum id (\<lambda>(t, f). (map name (dbf_fields t), pos f))
        (read_field_headers (demo_world False demo_files)
          (initial_table ''t.dbf'' (Some ''ascii'') True False demo_parser id False)
          \<lparr>data = demo_descriptor 0x41 0x43 2 @ [0x0D], pos = 0\<rparr>)
     = Inr ([ustr ''A''], 33)"
  by (simp add: open_defs demo_defs read_field_headers.simps ustr_simps)

subsection \<open>Schema validation (C6)\<close>




subsection \<open>The empty schema (C7)\<close>

text \<open>
  C7. If the file is found and opened, its header is read, and the loop over the field
  headers ends with no descriptor decoded, then the construction of the table raises the
  \<^verbatim>\<open>ValueError\<close> "dbf file must have at least one field", whatever \<^verbatim>\<open>load\<close> is: no
  traversal of the records is started.
\<close>

theorem empty_schema_is_fatal:
  assumes "resolve_filename w fname icase = Inr resolved" and "files w resolved = Some d"
    and "DBFHeader_read \<lparr>data = d, pos = 0\<rparr> = Inr (h, f1)"
    and "resolve_encoding w
           ((initial_table resolved enc icase lnames pclass rfactory raw_arg)
              \<lparr>header := Some h\<rparr>) h = Inr t1"
    and "read_field_headers w t1 f1 = Inr (t2, f2)"
    and "dbf_fields t2 = []"
  shows "Table_init w fname enc icase lnames pclass rfactory load_arg raw_arg
           = Inl (ValueError (Must_have_at_least_one_field resolved))"
proof -
  from read_field_headers_frame [OF assms(5)] resolve_encoding_frame [OF assms(4)]
  have "filename t2 = resolved"
    by (simp add: initial_table_def)
  with assms have "read_headers w (initial_table resolved enc icase lnames pclass rfactory raw_arg)
      \<lparr>data = d, pos = 0\<rparr> = Inl (ValueError (Must_have_at_least_one_field resolved))"
    by (simp add: read_headers_def)
  with assms(1,2) show ?thesis
    by (simp add: Table_init_def)
qed

theorem empty_schema_is_fatal_witness:
  "Table_init (demo_world False (Map.empty(''t.dbf'' \<mapsto> demo_empty_dbf))) ''t.dbf'' None True False
      demo_parser (\<lambda>items. items) True False
     = Inl (ValueError (Must_have_at_least_one_field ''t.dbf''))
   \<and> Table_init (demo_world False (Map.empty(''t.dbf'' \<mapsto> demo_empty_dbf))) ''t.dbf'' None True False
      demo_parser (\<lambda>items. items) False False
     = Inl (ValueError (Must_have_at_least_one_field ''t.dbf''))"
proof -
  let ?w = "demo_world False (Map.empty(''t.dbf'' \<mapsto> demo_empty_dbf))"
  let ?t0 = "initial_table ''t.dbf'' None True False demo_parser (\<lambda>items. items) False
               :: (nat, (unicode \<times> nat pyval) list) table"
  let ?h = "DBFHeader_unpack (demo_header_bytes 33 1)"
  let ?t1 = "?t0\<lparr>header := Some ?h, encoding := Some ''ascii''\<rparr>"
  have 1: "resolve_filename ?w ''t.dbf'' True = Inr ''t.dbf''"
    and 2: "files ?w ''t.dbf'' = Some demo_empty_dbf"
    by (simp_all add: resolve_filename_def demo_world_def)
  have 3: "DBFHeader_read \<lparr>data = demo_empty_dbf, pos = 0\<rparr>
      = Inr (?h, \<lparr>data = demo_empty_dbf, pos = 32\<rparr>)"
    by (simp add: DBFHeader_read_def struct_read_def file_read_def Let_def demo_empty_dbf_def
        demo_header_bytes_def)
  have 4: "resolve_encoding ?w (?t0\<lparr>header := Some ?h\<rparr>) ?h = Inr ?t1"
    by (simp add: resolve_encoding_def initial_table_def demo_world_def demo_header_bytes_def
        DBFHeader_unpack_def slice_def)
  have 5: "read_field_headers ?w ?t1 \<lparr>data = demo_empty_dbf, pos = 32\<rparr>
      = Inr (?t1, \<lparr>data = demo_empty_dbf, pos = 33\<rparr>)"
    by (simp add: read_field_headers.simps file_read_def Let_def demo_empty_dbf_def
        demo_header_bytes_def end_of_field_headers_def)
  have 6: "dbf_fields ?t1 = []"
    by (simp add: initial_table_def)
  from empty_schema_is_fatal [OF 1 2 3 4 5 6, of True] empty_schema_is_fatal [OF 1 2 3 4 5 6, of False]
  show ?thesis by simp
qed

subsection \<open>Raw mode (C8)\<close>

text \<open>
  C8, as the code has it. In raw mode decoding a record never fails, and every field's
  value is the exact byte string read from the field's slot: the bytes of the file from
  the slot's offset (the sum of the lengths of the fields before it) on, at most as many
  as the field's declared length. Its length is the declared length whenever the file
  holds the whole slot, and what is left of the file otherwise. The field parser and the
  memo file are not consulted: the record is the same for any of them.
\<close>

theorem raw_mode_returns_slot_bytes:
  assumes "raw t"
  shows "(\<exists>f'. read_record w t f = Inr (recfactory t (raw_items (dbf_fields t) (remaining f)), f'))
    \<and> (\<forall>i < length fs.
          raw_items fs bs ! i =
            (name (fs ! i),
             PyBytes (slice (sum_list (map flength (take i fs))) (flength (fs ! i)) bs))
          \<and> length (slice (sum_list (map flength (take i fs))) (flength (fs ! i)) bs)
              = min (flength (fs ! i)) (length bs - sum_list (map flength (take i fs)))
          \<and> (sum_list (map flength (take i fs)) + flength (fs ! i) \<le> length bs \<longrightarrow>
               length (slice (sum_list (map flength (take i fs))) (flength (fs ! i)) bs)
                 = flength (fs ! i)))
    \<and> read_record w (t\<lparr>the_field_parser := p, memofile := m\<rparr>) f = read_record w t f"
proof -
  from read_items_raw [OF assms, of w "dbf_fields t" f]
  have 1: "\<exists>f'. read_record w t f = Inr (recfactory t (raw_items (dbf_fields t) (remaining f)), f')"
    by (auto simp: read_record_def)
  have "raw (t\<lparr>the_field_parser := p, memofile := m\<rparr>)"
    using assms by simp
  from read_items_raw_indep [OF assms this, of w "dbf_fields t" f w]
  have 2: "read_record w (t\<lparr>the_field_parser := p, memofile := m\<rparr>) f = read_record w t f"
    by (simp add: read_record_def cong: sum.case_cong prod.case_cong)
  have 3: "length (slice off n bs) = min n (length bs - off)" for off n
    by (simp add: slice_def)
  from 1 2 3 show ?thesis
    by (simp add: raw_items_nth [where 'a = 'c])
qed

text \<open>
  The claim as stated gives every raw value the field's declared length. A file that
  ends inside its last record yields that record with a shorter value: here 2 bytes for
  a field of length 5.
\<close>

theorem raw_mode_length_counterexample:
  "raw (demo_table True [demo_field ''A'' ''C'' 5])
   \<and> flength (demo_field ''A'' ''C'' 5) = 5
   \<and> read_record (demo_world False demo_files) (demo_table True [demo_field ''A'' ''C'' 5])
        \<lparr>data = [0x20, 0x61, 0x62], pos = 1\<rparr>
      = Inr ([(ustr ''A'', PyBytes [0x61, 0x62])], \<lparr>data = [0x20, 0x61, 0x62], pos = 3\<rparr>)
   \<and> iter_records_loop (demo_world False demo_files) (demo_table True [demo_field ''A'' ''C'' 5])
        False True \<lparr>data = [0x20, 0x61, 0x62], pos = 0\<rparr>
      = ([Some [(ustr ''A'', PyBytes [0x61, 0x62])]], Returned)
   \<and> length [0x61, 0x62 :: byte] \<noteq> 5"
  by (simp add: demo_defs initial_table_def traversal_defs iter_records_loop.simps ustr_simps)

theorem raw_mode_returns_slot_bytes_witness:
  "raw (demo_table True [demo_field ''A'' ''C'' 2, demo_field ''B'' ''M'' 1])
   \<and> map_sum id fst
        (read_record (demo_world False demo_files)
           (demo_table True [demo_field ''A'' ''C'' 2, demo_field ''B'' ''M'' 1])
           \<lparr>data = [0x20, 0x61, 0x62, 0x01], pos = 1\<rparr>)
      = Inr [(ustr ''A'', PyBytes [0x61, 0x62]), (ustr ''B'', PyBytes [0x01])]
   \<and> length (slice 2 1 [0x61, 0x62, 0x01 :: byte]) = 1"
proof -
  let ?w = "demo_world False demo_files"
  let ?fs = "[demo_field ''A'' ''C'' 2, demo_field ''B'' ''M'' 1]"
  let ?t = "demo_table True ?fs"
  let ?f = "\<lparr>data = [0x20, 0x61, 0x62, 0x01], pos = 1\<rparr>"
  have r: "raw ?t"
    by (simp add: demo_table_def initial_table_def)
  note a = raw_mode_returns_slot_bytes [OF r, of ?w ?f ?fs "[0x61, 0x62, 0x01]"]
  from a obtain f' where
    "read_record ?w ?t ?f = Inr (recfactory ?t (raw_items (dbf_fields ?t) (remaining ?f)), f')"
    by blast
  then have 1: "map_sum id fst (read_record ?w ?t ?f)
      = Inr [(ustr ''A'', PyBytes [0x61, 0x62]), (ustr ''B'', PyBytes [0x01])]"
    by (simp add: demo_defs initial_table_def remaining_def ustr_simps)
  have i: "(1::nat) < length ?fs"
    "sum_list (map flength (take 1 ?fs)) = 2" "flength (?fs ! 1) = 1"
    by (simp_all add: demo_field_def)
  from a have "\<forall>i<length ?fs.
      sum_list (map flength (take i ?fs)) + flength (?fs ! i) \<le> length [0x61, 0x62, 0x01 :: byte] \<longrightarrow>
      length (slice (sum_list (map flength (take i ?fs))) (flength (?fs ! i)) [0x61, 0x62, 0x01 :: byte])
        = flength (?fs ! i)"
    by blast
  from this [rule_format, of 1] i have 2: "length (slice 2 1 [0x61, 0x62, 0x01 :: byte]) = 1"
    by simp
  from r 1 2 show ?thesis by simp
qed

subsection \<open>Memo fields (C9)\<close>



subsection \<open>Raw mode and the memo file (C10)\<close>

text \<open>
  C10. Construction in raw mode never opens the memo file: the constructor gives the
  same result whatever \<^verbatim>\<open>FPT\<close> is, also one that would raise, so \<^verbatim>\<open>FPT\<close> is not
  called; and the table it constructs has \<^verbatim>\<open>self.memofile\<close> set to \<^verbatim>\<open>None\<close>. In raw
  mode every field, a memo field included, decodes to the bytes read from its slot,
  whatever the memo file. And a table
  whose schema has a field of type \<^verbatim>\<open>M\<close> fails construction with the missing memo file
  error if no memo file is found, in raw mode as well.
\<close>

theorem raw_mode_never_opens_memo_file:
  "Table_init (w\<lparr>FPT := x\<rparr>) fname enc icase lnames pclass rfactory load_arg True
     = Table_init w fname enc icase lnames pclass rfactory load_arg True
   \<and> (Table_init w fname enc icase lnames pclass rfactory load_arg True = Inr t \<longrightarrow>
      raw t \<and> memofile t = None)
   \<and> (raw t1 \<longrightarrow> after_read_headers (w\<lparr>FPT := x\<rparr>) t1 = after_read_headers w t1)
   \<and> (raw t' \<longrightarrow>
        field_value w t' field v0 = Inr (PyBytes v0)
        \<and> field_value w (t'\<lparr>memofile := mf\<rparr>) field v0 = Inr (PyBytes v0)
        \<and> (\<exists>f'. read_record w t' f
              = Inr (recfactory t' (raw_items (dbf_fields t') (remaining f)), f')))
   \<and> (resolve_filename w fname icase = Inr resolved \<and> files w resolved = Some d
        \<and> DBFHeader_read \<lparr>data = d, pos = 0\<rparr> = Inr (h, f1)
        \<and> resolve_encoding w
             ((initial_table resolved enc icase lnames pclass rfactory raw_arg)
                \<lparr>header := Some h\<rparr>) h = Inr t2
        \<and> read_field_headers w t2 f1 = Inr (t3, f2)
        \<and> ustr ''M'' \<in> set (map ftype (dbf_fields t3))
        \<and> (ifind w resolved (Some ''.fpt'') = None \<or> ifind w resolved (Some ''.fpt'') = Some [])
        \<longrightarrow> Table_init w fname enc icase lnames pclass rfactory load_arg raw_arg
             = Inl (IOError (Missing_memo_file resolved)))"
proof -
  have 3: "raw t' \<longrightarrow>
        field_value w t' field v0 = Inr (PyBytes v0)
        \<and> field_value w (t'\<lparr>memofile := mf\<rparr>) field v0 = Inr (PyBytes v0)
        \<and> (\<exists>f'. read_record w t' f
              = Inr (recfactory t' (raw_items (dbf_fields t') (remaining f)), f'))"
    using read_items_raw [of t' w "dbf_fields t'" f]
    by (auto simp: field_value_raw read_record_def)
  from 3 Table_init_raw [of w fname enc icase lnames pclass rfactory load_arg t]
    Table_init_FPT [where w = w and x = x and fname = fname and enc = enc and icase = icase
      and lnames = lnames and pclass = pclass and rfactory = rfactory and load_arg = load_arg]
    after_read_headers_FPT [where ?t1.0 = t1 and w = w and x = x]
    Table_init_missing_memo [of w fname icase resolved d h f1 enc lnames pclass rfactory raw_arg
      t2 t3 f2 load_arg]
  show ?thesis by blast
qed

theorem raw_mode_never_opens_memo_file_witness:
  "(\<exists>t. Table_init
          ((demo_world False (Map.empty(''t.dbf'' \<mapsto> demo_memo_dbf, ''t.fpt'' \<mapsto> [])))
             \<lparr>FPT := demo_failing_FPT\<rparr>)
          ''t.dbf'' None True False demo_parser id True True = Inr t
        \<and> raw t \<and> memofile t = None
        \<and> records t = Some (Materialized
             [Some [(ustr ''A'', PyBytes [0x61, 0x62]), (ustr ''B'', PyBytes [0x01])],
              Some [(ustr ''A'', PyBytes [0x65, 0x66]), (ustr ''B'', PyBytes [0x00])]]))
   \<and> Table_init (demo_world False (Map.empty(''t.dbf'' \<mapsto> demo_memo_dbf)))
          ''t.dbf'' None True False demo_parser id True True
       = Inl (IOError (Missing_memo_file ''t.dbf''))"
proof -
  let ?w = "demo_world False (Map.empty(''t.dbf'' \<mapsto> demo_memo_dbf, ''t.fpt'' \<mapsto> []))"
  let ?v = "demo_world False (Map.empty(''t.dbf'' \<mapsto> demo_memo_dbf))"
  let ?rs = "[Some [(ustr ''A'', PyBytes [0x61, 0x62]), (ustr ''B'', PyBytes [0x01])],
              Some [(ustr ''A'', PyBytes [0x65, 0x66]), (ustr ''B'', PyBytes [0x00 :: byte] :: nat pyval)]]"
  let ?t0 = "initial_table ''t.dbf'' None True False demo_parser id True
               :: (nat, (unicode \<times> nat pyval) list) table"
  let ?h = "DBFHeader_unpack (demo_header_bytes 97 4)"
  let ?t1 = "?t0\<lparr>header := Some ?h, encoding := Some ''ascii''\<rparr>"
  have "\<exists>t. Table_init ?w ''t.dbf'' None True False demo_parser id True True = Inr t
          \<and> records t = Some (Materialized ?rs)"
    by (simp add: open_defs traversal_defs demo_defs read_field_headers.simps
        iter_records_loop.simps ustr_simps)
  then obtain t where ti: "Table_init ?w ''t.dbf'' None True False demo_parser id True True = Inr t"
    and rs: "records t = Some (Materialized ?rs)"
    by blast
  note a = raw_mode_never_opens_memo_file [where w = ?w and fname = "''t.dbf''" and enc = None
      and icase = True and lnames = False and pclass = demo_parser and rfactory = id
      and load_arg = True and t = t and x = demo_failing_FPT]
  from a ti have 1: "raw t \<and> memofile t = None"
    by blast
  from a [THEN conjunct1] ti
  have tf: "Table_init (?w\<lparr>FPT := demo_failing_FPT\<rparr>) ''t.dbf'' None True False
      demo_parser id True True = Inr t"
    by simp
  have rf: "resolve_filename ?v ''t.dbf'' True = Inr ''t.dbf''"
    and fl: "files ?v ''t.dbf'' = Some demo_memo_dbf"
    and nf: "ifind ?v ''t.dbf'' (Some ''.fpt'') = None"
    by (simp_all add: resolve_filename_def demo_world_def)
  have hr: "DBFHeader_read \<lparr>data = demo_memo_dbf, pos = 0\<rparr>
      = Inr (?h, \<lparr>data = demo_memo_dbf, pos = 32\<rparr>)"
    by (simp add: DBFHeader_read_def struct_read_def file_read_def Let_def demo_memo_dbf_def
        demo_header_bytes_def)
  have re: "resolve_encoding ?v (?t0\<lparr>header := Some ?h\<rparr>) ?h = Inr ?t1"
    by (simp add: resolve_encoding_def initial_table_def demo_world_def demo_header_bytes_def
        DBFHeader_unpack_def slice_def)
  have "\<exists>t3 f2. read_field_headers ?v ?t1 \<lparr>data = demo_memo_dbf, pos = 32\<rparr> = Inr (t3, f2)
          \<and> map ftype (dbf_fields t3) = [ustr ''C'', ustr ''M'']"
    by (simp add: open_defs demo_defs read_field_headers.simps ustr_simps)
  then obtain t3 f2 where
    fh: "read_field_headers ?v ?t1 \<lparr>data = demo_memo_dbf, pos = 32\<rparr> = Inr (t3, f2)"
    and ty: "ustr ''M'' \<in> set (map ftype (dbf_fields t3))"
    by auto
  note b = raw_mode_never_opens_memo_file [where w = ?v and fname = "''t.dbf''" and enc = None
      and icase = True and lnames = False and pclass = demo_parser and rfactory = id
      and load_arg = True and raw_arg = True and resolved = "''t.dbf''" and d = demo_memo_dbf
      and h = ?h and ?f1.0 = "\<lparr>data = demo_memo_dbf, pos = 32\<rparr>" and ?t2.0 = ?t1
      and ?t3.0 = t3 and ?f2.0 = f2]
  from b rf fl hr re fh ty nf
  have 2: "Table_init ?v ''t.dbf'' None True False demo_parser id True True
       = Inl (IOError (Missing_memo_file ''t.dbf''))"
    by blast
  from tf rs 1 2 show ?thesis by blast
qed

end
